theory Spec2Isabelle
  imports Complex_Main
begin

section \<open>Field service orders generated from sale orders\<close>

text \<open>
  The development embeds \<^verbatim>\<open>fieldservice_sale/models/sale_order.py\<close>, the extension of
  the sale order model of an Odoo database: the computed link to the field service orders
  of a sale order, the service location proposed when the customer changes, the values a
  field service order is created from, its creation, the search that avoids creating it
  twice, and the check made on confirmation.

  Conventions of the embedding.
  \<^item> A record of the database is a HOL record that carries its identifier. The records a
    sale order reaches through its fields (lines, products, templates, partners, the
    service location) are nested in it by value: they are the snapshot the methods read.
  \<^item> A many-to-one field is an \<open>option\<close>: \<open>None\<close> is Odoo's empty value, which Python
    code reads as \<^verbatim>\<open>False\<close>. The same holds for an unset text, date or selection.
  \<^item> A recordset is a list: the records (or their identifiers) in the set's order.
  \<^item> The tables that are searched or written (\<^verbatim>\<open>fsm.order\<close>, \<^verbatim>\<open>fsm.location\<close>, the
    messages) are fields of an explicit environment that every writing method returns.
  \<^item> Durations are Python floats in the source and exact reals here: the rounding of
    float addition is not modelled.
  \<^item> Python names that start with an underscore lose it, since a HOL name starts with a
    letter.
\<close>

subsection \<open>Data model\<close>

text \<open>
  The fields keep the names of the source. Where two models share a name, the field
  of one of them carries a prefix: \<open>so_id\<close>, \<open>so_name\<close> and \<open>so_company_id\<close> are
  \<^verbatim>\<open>id\<close>, \<^verbatim>\<open>name\<close> and \<^verbatim>\<open>company_id\<close> of a sale order; \<open>sol_id\<close>, \<open>prod_id\<close>,
  \<open>tmpl_id\<close>, \<open>p_id\<close>, \<open>loc_id\<close> and \<open>fo_id\<close> are the identifiers of a line, a product, a
  template, a partner, a location and a field service order; \<open>loc_partner_id\<close> and
  \<open>tmpl_category_ids\<close> are \<^verbatim>\<open>partner_id\<close> of a location and \<^verbatim>\<open>category_ids\<close> of a
  template; \<open>fo_name\<close> is the name of a field service order. The partner of a location is
  required, a location being a partner by delegation. Dates are numbers.
\<close>

record res_partner =
  p_id :: nat
  commercial_partner_id :: "nat option"
  fsm_location :: bool

record fsm_location_rec =
  loc_id :: nat
  loc_partner_id :: nat
  direction :: "string option"

record fsm_template =
  tmpl_id :: nat
  instructions :: "string option"
  duration :: real
  tmpl_category_ids :: "nat list"

record product =
  prod_id :: nat
  field_service_tracking :: "string option"
  fsm_order_template_id :: "fsm_template option"

record sale_order_line =
  sol_id :: nat
  product_id :: "product option"

record sale_order =
  so_id :: nat
  so_name :: string
  partner_id :: "res_partner option"
  partner_shipping_id :: "res_partner option"
  fsm_location_id :: "fsm_location_rec option"
  fsm_order_ids :: "nat list"
  fsm_order_count :: nat
  expected_date :: "nat option"
  so_company_id :: "nat option"
  order_line :: "sale_order_line list"

text \<open>
  The dictionary of values that \<^verbatim>\<open>_field_create_fsm_order_prepare_values\<close> returns has
  one field per key. A row of \<^verbatim>\<open>fsm.order\<close> has these fields, its identifier, its name
  and the reference to a sale order line, which the dictionary never sets.
\<close>

record fsm_order_vals =
  location_id :: "nat option"
  location_directions :: "string option"
  request_early :: "nat option"
  scheduled_date_start :: "nat option"
  todo :: string
  category_ids :: "nat list"
  scheduled_duration :: real
  sale_id :: "nat option"
  company_id :: "nat option"

record fsm_order = fsm_order_vals +
  fo_id :: nat
  fo_name :: string
  sale_line_id :: "nat option"

datatype 'e error =
  ValueError string
| KeyError nat
| ValidationError string
| Propagated 'e

subsection \<open>Recordsets\<close>

text \<open>
  A many-to-one value read as a recordset: empty, or the one record.
\<close>

definition recordset_of :: "'a option \<Rightarrow> 'a list" where
  "recordset_of v = (case v of None \<Rightarrow> [] | Some r \<Rightarrow> [r])"

text \<open>
  The union of recordsets keeps one record per identifier, at its first position
  (Odoo builds it from an insertion-ordered set of identifiers). \<open>union_acc key acc xs\<close>
  adds the records of \<open>xs\<close> to \<open>acc\<close> one by one, skipping an identifier already present.
\<close>

fun union_acc :: "('a \<Rightarrow> nat) \<Rightarrow> 'a list \<Rightarrow> 'a list \<Rightarrow> 'a list" where
  "union_acc key acc [] = acc"
| "union_acc key acc (x # xs) =
     union_acc key (if key x \<in> set (map key acc) then acc else acc @ [x]) xs"

definition union_records :: "('a \<Rightarrow> nat) \<Rightarrow> 'a list \<Rightarrow> 'a list" where
  "union_records key xs = union_acc key [] xs"

text \<open>\<^verbatim>\<open>a | b\<close> on recordsets; \<open>key\<close> reads the identifier of a record.\<close>

definition rs_union :: "('a \<Rightarrow> nat) \<Rightarrow> 'a list \<Rightarrow> 'a list \<Rightarrow> 'a list" where
  "rs_union key a b = union_records key (a @ b)"

text \<open>
  \<^verbatim>\<open>ensure_one\<close> returns the record of a singleton and raises \<^verbatim>\<open>ValueError\<close> on any
  other recordset (its message, which goes on to print the recordset, is cut short).
\<close>

definition ensure_one :: "'a list \<Rightarrow> 'e error + 'a" where
  "ensure_one self =
     (case self of [r] \<Rightarrow> Inr r | _ \<Rightarrow> Inl (ValueError ''Expected singleton''))"

subsection \<open>The values of a new field service order\<close>

text \<open>
  \<^verbatim>\<open>sol.product_id.field_service_tracking\<close>: the selection of the line's product, empty
  when the line has no product.
\<close>

definition tracking :: "sale_order_line \<Rightarrow> string option" where
  "tracking sol =
     (case product_id sol of None \<Rightarrow> None | Some p \<Rightarrow> field_service_tracking p)"

text \<open>
  \<^verbatim>\<open>lines.mapped("product_id.fsm_order_template_id")\<close> follows the path one field at a
  time, each step giving the union of the records reached.
\<close>

definition mapped_product_id :: "sale_order_line list \<Rightarrow> product list" where
  "mapped_product_id lines =
     union_records prod_id (concat (map (\<lambda>sol. recordset_of (product_id sol)) lines))"

definition mapped_fsm_order_template_id :: "product list \<Rightarrow> fsm_template list" where
  "mapped_fsm_order_template_id products =
     union_records tmpl_id
       (concat (map (\<lambda>p. recordset_of (fsm_order_template_id p)) products))"

definition sale_templates :: "sale_order \<Rightarrow> fsm_template list" where
  "sale_templates so =
     (let lines = filter (\<lambda>sol. tracking sol = Some ''sale'') (order_line so)
      in mapped_fsm_order_template_id (mapped_product_id lines))"

text \<open>
  The body of the loop over the templates, on the triple \<open>(note, hours, categories)\<close>:
  \<^verbatim>\<open>note += template.instructions or ""\<close>, \<^verbatim>\<open>hours += template.duration\<close>,
  \<^verbatim>\<open>categories |= template.category_ids\<close>.
\<close>

definition aggregate_step ::
  "string \<times> real \<times> nat list \<Rightarrow> fsm_template \<Rightarrow> string \<times> real \<times> nat list" where
  "aggregate_step acc template =
     (case acc of (note, hours, categories) \<Rightarrow>
        (note @ (case instructions template of None \<Rightarrow> '''' | Some s \<Rightarrow> s),
         hours + duration template,
         rs_union (\<lambda>i. i) categories (tmpl_category_ids template)))"

definition field_create_fsm_order_prepare_values ::
  "sale_order list \<Rightarrow> 'e error + fsm_order_vals" where
  "field_create_fsm_order_prepare_values self =
     (case ensure_one self of
        Inl e \<Rightarrow> Inl e
      | Inr so \<Rightarrow>
          (case foldl aggregate_step ('''', 0, []) (sale_templates so) of
             (note, hours, categories) \<Rightarrow>
               Inr \<lparr> location_id = map_option loc_id (fsm_location_id so),
                     location_directions =
                       (case fsm_location_id so of None \<Rightarrow> None | Some l \<Rightarrow> direction l),
                     request_early = expected_date so,
                     scheduled_date_start = expected_date so,
                     todo = note,
                     category_ids = categories,
                     scheduled_duration = hours,
                     sale_id = Some (so_id so),
                     company_id = so_company_id so \<rparr>))"

subsection \<open>The environment: tables, search, creation, messages\<close>

datatype message_body =
  Field_Service_Order_Created nat string
| This_order_has_been_created_from nat string

record message =
  msg_model :: string
  msg_res_id :: nat
  msg_body :: message_body

text \<open>
  The tables are lists of rows, in the order a search returns them.
  \<open>fsm_order_sequence\<close> gives the name a new field service order receives, which the
  \<^verbatim>\<open>fsm.order\<close> model assigns outside this module.
\<close>

record env =
  fsm_order_table :: "fsm_order list"
  fsm_location_table :: "fsm_location_rec list"
  messages :: "message list"
  fsm_order_sequence :: "nat \<Rightarrow> string"

text \<open>
  Search domains. The source writes them as lists in prefix notation:
  \<^verbatim>\<open>["|", "|", a, b, c]\<close> is \<open>OR (OR a b) c\<close>, and a list of two terms with no
  operator, \<^verbatim>\<open>[a, b]\<close>, is their conjunction \<open>AND a b\<close>. A term compares a many-to-one
  field with an identifier or \<^verbatim>\<open>False\<close> (\<open>Leaf_eq\<close>, the operator \<^verbatim>\<open>=\<close>) or with a
  list of identifiers (\<open>Leaf_in\<close>, the operator \<^verbatim>\<open>in\<close>).
\<close>

datatype domain =
  Leaf_eq string "nat option"
| Leaf_in string "nat list"
| OR domain domain
| AND domain domain

fun matches :: "(string \<Rightarrow> nat option) \<Rightarrow> domain \<Rightarrow> bool" where
  "matches field (Leaf_eq f v) = (field f = v)"
| "matches field (Leaf_in f ids) =
     (case field f of None \<Rightarrow> False | Some i \<Rightarrow> i \<in> set ids)"
| "matches field (OR a b) = (matches field a \<or> matches field b)"
| "matches field (AND a b) = (matches field a \<and> matches field b)"

definition fsm_order_field :: "fsm_order \<Rightarrow> string \<Rightarrow> nat option" where
  "fsm_order_field fo f =
     (if f = ''sale_id'' then sale_id fo
      else if f = ''sale_line_id'' then sale_line_id fo
      else None)"

definition fsm_location_field :: "fsm_location_rec \<Rightarrow> string \<Rightarrow> nat option" where
  "fsm_location_field l f = (if f = ''partner_id'' then Some (loc_partner_id l) else None)"

definition search_fsm_order :: "env \<Rightarrow> domain \<Rightarrow> fsm_order list" where
  "search_fsm_order e d =
     filter (\<lambda>fo. matches (fsm_order_field fo) d) (fsm_order_table e)"

definition search_fsm_location :: "env \<Rightarrow> domain \<Rightarrow> fsm_location_rec list" where
  "search_fsm_location e d =
     filter (\<lambda>l. matches (fsm_location_field l) d) (fsm_location_table e)"

text \<open>An identifier above every identifier in use, as the table's sequence gives.\<close>

definition new_id :: "fsm_order list \<Rightarrow> nat" where
  "new_id rows = Suc (fold max (map fo_id rows) 0)"

text \<open>
  Modelled from the spec: the \<^verbatim>\<open>fsm.order\<close> model and its \<^verbatim>\<open>create\<close> are not part of
  the source file. Following the repository interface of the specification
  (\<^verbatim>\<open>create(entityType, values) -> record\<close>), creation adds one row holding the given
  values under an unused identifier and returns it; the line reference, which the values
  never mention, stays empty.
\<close>

definition create :: "env \<Rightarrow> fsm_order_vals \<Rightarrow> fsm_order \<times> env" where
  "create e values =
     (let i = new_id (fsm_order_table e);
          row = \<lparr> location_id = location_id values,
                  location_directions = location_directions values,
                  request_early = request_early values,
                  scheduled_date_start = scheduled_date_start values,
                  todo = todo values,
                  category_ids = category_ids values,
                  scheduled_duration = scheduled_duration values,
                  sale_id = sale_id values,
                  company_id = company_id values,
                  fo_id = i,
                  fo_name = fsm_order_sequence e i,
                  sale_line_id = None \<rparr>
      in (row, e\<lparr>fsm_order_table := fsm_order_table e @ [row]\<rparr>))"

definition message_post :: "env \<Rightarrow> string \<Rightarrow> nat \<Rightarrow> message_body \<Rightarrow> env" where
  "message_post e model res_id body =
     e\<lparr>messages := messages e @ [\<lparr>msg_model = model, msg_res_id = res_id, msg_body = body\<rparr>]\<rparr>"

subsection \<open>The methods of the sale order\<close>

text \<open>
  \<^verbatim>\<open>_compute_fsm_order_ids\<close>: for each order of the recordset, the two searches, their
  union, and the two assignments. The updated orders are returned.
\<close>

definition compute_fsm_order_ids :: "env \<Rightarrow> sale_order list \<Rightarrow> sale_order list" where
  "compute_fsm_order_ids e self =
     map (\<lambda>order.
       let orders = [];
           orders = rs_union fo_id orders
             (search_fsm_order e (Leaf_in ''sale_line_id'' (map sol_id (order_line order))));
           orders = rs_union fo_id orders
             (search_fsm_order e (Leaf_eq ''sale_id'' (Some (so_id order))));
           order = order\<lparr>fsm_order_ids := map fo_id orders\<rparr>
       in order\<lparr>fsm_order_count := length (fsm_order_ids order)\<rparr>) self"

text \<open>
  \<^verbatim>\<open>onchange_partner_id\<close>, on the one record being edited. \<open>super\<close> is the inherited
  method, which runs first; the fields are read from the record it leaves.
\<close>

definition onchange_partner_id ::
  "(sale_order \<Rightarrow> sale_order) \<Rightarrow> env \<Rightarrow> sale_order \<Rightarrow> sale_order" where
  "onchange_partner_id super e self0 =
     (let self = super self0;
          domain =
            OR (OR (Leaf_eq ''partner_id'' (map_option p_id (partner_id self)))
                   (Leaf_eq ''partner_id'' (map_option p_id (partner_shipping_id self))))
               (Leaf_eq ''partner_id''
                  (case partner_id self of None \<Rightarrow> None | Some p \<Rightarrow> commercial_partner_id p));
          domain =
            (if (case partner_id self of None \<Rightarrow> False | Some p \<Rightarrow> fsm_location p)
             then Leaf_eq ''partner_id'' (map_option p_id (partner_id self))
             else domain);
          location_ids = search_fsm_location e domain
      in self\<lparr>fsm_location_id := (case location_ids of [] \<Rightarrow> None | l # _ \<Rightarrow> Some l)\<rparr>)"

text \<open>
  \<^verbatim>\<open>_field_create_fsm_order\<close>: the loop over the orders, with the dictionary \<open>result\<close>
  as a map from the identifier of a sale order to that of its field service order.
  \<^verbatim>\<open>sudo()\<close> lifts access rights, which the embedding does not have. The two message
  bodies are kept as their template and its two arguments, the translation and the
  markup being the platform's.
\<close>

fun field_create_fsm_order_loop ::
  "env \<Rightarrow> sale_order list \<Rightarrow> (nat \<rightharpoonup> nat) \<Rightarrow> ('e error + (nat \<rightharpoonup> nat)) \<times> env" where
  "field_create_fsm_order_loop e [] result = (Inr result, e)"
| "field_create_fsm_order_loop e (so # rest) result =
     (case field_create_fsm_order_prepare_values [so] of
        Inl err \<Rightarrow> (Inl err, e)
      | Inr values \<Rightarrow>
          (case create e values of
             (fsm_order, e1) \<Rightarrow>
               let e2 = message_post e1 ''sale.order'' (so_id so)
                          (Field_Service_Order_Created (fo_id fsm_order) (fo_name fsm_order));
                   e3 = message_post e2 ''fsm.order'' (fo_id fsm_order)
                          (This_order_has_been_created_from (so_id so) (so_name so))
               in field_create_fsm_order_loop e3 rest (result(so_id so \<mapsto> fo_id fsm_order))))"

definition field_create_fsm_order ::
  "env \<Rightarrow> sale_order list \<Rightarrow> ('e error + (nat \<rightharpoonup> nat)) \<times> env" where
  "field_create_fsm_order e self = field_create_fsm_order_loop e self Map.empty"

text \<open>
  \<^verbatim>\<open>_field_find_fsm_order\<close>: one search, the dictionary built from its rows (a later row
  replaces an earlier one under the same key), and the loop. The dictionary is keyed by
  \<^verbatim>\<open>fsm_order.sale_id.id\<close>; \<^verbatim>\<open>[so.id]\<close> on the dictionary that creation returns raises
  \<^verbatim>\<open>KeyError\<close> on a missing key.
\<close>

fun field_find_fsm_order_loop ::
  "(nat option \<rightharpoonup> nat) \<Rightarrow> env \<Rightarrow> sale_order list \<Rightarrow> (nat \<rightharpoonup> nat) \<Rightarrow>
     ('e error + (nat \<rightharpoonup> nat)) \<times> env" where
  "field_find_fsm_order_loop fsm_order_mapping e [] result = (Inr result, e)"
| "field_find_fsm_order_loop fsm_order_mapping e (so # rest) result =
     (case fsm_order_mapping (Some (so_id so)) of
        Some fsm_order \<Rightarrow>
          field_find_fsm_order_loop fsm_order_mapping e rest (result(so_id so \<mapsto> fsm_order))
      | None \<Rightarrow>
          (case field_create_fsm_order e [so] of
             (Inl err, e1) \<Rightarrow> (Inl err, e1)
           | (Inr created, e1) \<Rightarrow>
               (case created (so_id so) of
                  None \<Rightarrow> (Inl (KeyError (so_id so)), e1)
                | Some fsm_order \<Rightarrow>
                    field_find_fsm_order_loop fsm_order_mapping e1 rest
                      (result(so_id so \<mapsto> fsm_order)))))"

definition field_find_fsm_order ::
  "env \<Rightarrow> sale_order list \<Rightarrow> ('e error + (nat \<rightharpoonup> nat)) \<times> env" where
  "field_find_fsm_order e self =
     (let fsm_orders = search_fsm_order e
            (AND (Leaf_in ''sale_id'' (map so_id self)) (Leaf_eq ''sale_line_id'' None));
          fsm_order_mapping =
            foldl (\<lambda>m fsm_order. m(sale_id fsm_order \<mapsto> fo_id fsm_order)) Map.empty fsm_orders
      in field_find_fsm_order_loop fsm_order_mapping e self Map.empty)"

text \<open>
  A relational field read on a recordset: the field of the record when there is one
  record, the union over the records when there are several.
\<close>

definition rs_order_line :: "sale_order list \<Rightarrow> sale_order_line list" where
  "rs_order_line self =
     (case self of
        [] \<Rightarrow> []
      | [so] \<Rightarrow> order_line so
      | _ \<Rightarrow> union_records sol_id (concat (map order_line self)))"

definition rs_fsm_location_id :: "sale_order list \<Rightarrow> fsm_location_rec list" where
  "rs_fsm_location_id self =
     (case self of
        [] \<Rightarrow> []
      | [so] \<Rightarrow> recordset_of (fsm_location_id so)
      | _ \<Rightarrow> union_records loc_id (concat (map (\<lambda>so. recordset_of (fsm_location_id so)) self)))"

text \<open>
  \<^verbatim>\<open>_action_confirm\<close>. Two collaborators are parameters: \<open>super\<close>, the inherited
  confirmation, and \<open>field_service_generation\<close>, the method of the order lines. Each acts
  on the environment and returns a value or raises; what they raise is passed on as
  \<open>Propagated\<close>. An outcome pairs the value or the exception with the environment reached.
\<close>

definition action_confirm ::
  "(env \<Rightarrow> sale_order list \<Rightarrow> ('e + 'r) \<times> env) \<Rightarrow>
   (env \<Rightarrow> sale_order_line list \<Rightarrow> ('e + unit) \<times> env) \<Rightarrow>
   env \<Rightarrow> sale_order list \<Rightarrow> ('e error + 'r) \<times> env" where
  "action_confirm super field_service_generation e self =
     (case super e self of
        (Inl err, e1) \<Rightarrow> (Inl (Propagated err), e1)
      | (Inr result, e1) \<Rightarrow>
          if list_ex (\<lambda>sol. tracking sol \<noteq> Some ''no'') (rs_order_line self) then
            if rs_fsm_location_id self = [] then
              (Inl (ValidationError ''FSM Location must be set''), e1)
            else
              (case field_service_generation e1 (rs_order_line self) of
                 (Inl err, e2) \<Rightarrow> (Inl (Propagated err), e2)
               | (Inr u, e2) \<Rightarrow> (Inr result, e2))
          else (Inr result, e1))"

subsection \<open>The aggregates, as the specification words them\<close>

text \<open>
  The specification describes the three aggregates over the collected templates: the
  instruction texts concatenated in order, with the empty string for a template that has
  none; the durations summed; the categories united.
\<close>

definition aggregated_instructions :: "fsm_template list \<Rightarrow> string" where
  "aggregated_instructions ts =
     concat (map (\<lambda>t. case instructions t of None \<Rightarrow> '''' | Some s \<Rightarrow> s) ts)"

definition aggregated_hours :: "fsm_template list \<Rightarrow> real" where
  "aggregated_hours ts = sum_list (map duration ts)"

definition aggregated_categories :: "fsm_template list \<Rightarrow> nat set" where
  "aggregated_categories ts = (\<Union>t \<in> set ts. set (tmpl_category_ids t))"

subsection \<open>Notions used in the properties\<close>

text \<open>
  The customer of the order is itself flagged as a service location
  (\<^verbatim>\<open>self.partner_id.fsm_location\<close>; an order without customer reads \<^verbatim>\<open>False\<close>).
\<close>

definition customer_is_location :: "sale_order \<Rightarrow> bool" where
  "customer_is_location so =
     (case partner_id so of None \<Rightarrow> False | Some p \<Rightarrow> fsm_location p)"

text \<open>The location is owned by the order's customer.\<close>

definition owned_by_customer :: "sale_order \<Rightarrow> fsm_location_rec \<Rightarrow> bool" where
  "owned_by_customer so =
     (\<lambda>l. Some (loc_partner_id l) = map_option p_id (partner_id so))"

text \<open>
  The location is owned by the order's customer, by its shipping address or by the
  customer's commercial partner.
\<close>

definition owned_by_candidate :: "sale_order \<Rightarrow> fsm_location_rec \<Rightarrow> bool" where
  "owned_by_candidate so = (\<lambda>l.
      Some (loc_partner_id l) = map_option p_id (partner_id so) \<or>
      Some (loc_partner_id l) = map_option p_id (partner_shipping_id so) \<or>
      Some (loc_partner_id l) =
        (case partner_id so of None \<Rightarrow> None | Some p \<Rightarrow> commercial_partner_id p))"

text \<open>
  The field service orders whose line reference is one of the order's lines, and those
  whose sale order reference is the order, as sets of identifiers.
\<close>

definition linked_by_line :: "env \<Rightarrow> sale_order \<Rightarrow> nat set" where
  "linked_by_line e order =
     fo_id ` {fo \<in> set (fsm_order_table e).
                \<exists>i \<in> set (map sol_id (order_line order)). sale_line_id fo = Some i}"

definition linked_by_order :: "env \<Rightarrow> sale_order \<Rightarrow> nat set" where
  "linked_by_order e order =
     fo_id ` {fo \<in> set (fsm_order_table e). sale_id fo = Some (so_id order)}"

text \<open>The body of the loop of \<^verbatim>\<open>_compute_fsm_order_ids\<close>, for one order.\<close>

definition linked_orders :: "env \<Rightarrow> sale_order \<Rightarrow> sale_order" where
  "linked_orders e order =
     (let ids = map fo_id
        (rs_union fo_id
           (rs_union fo_id []
              (search_fsm_order e (Leaf_in ''sale_line_id'' (map sol_id (order_line order)))))
           (search_fsm_order e (Leaf_eq ''sale_id'' (Some (so_id order)))))
      in order\<lparr>fsm_order_ids := ids, fsm_order_count := length ids\<rparr>)"

text \<open>
  The order-level field service orders of the sale order \<open>i\<close>: the rows that refer to
  it and to no line. \<open>found e i\<close> is the one the dictionary of
  \<^verbatim>\<open>_field_find_fsm_order\<close> holds for \<open>i\<close>, the last such row.
\<close>

definition order_level :: "env \<Rightarrow> nat \<Rightarrow> fsm_order list" where
  "order_level e i =
     filter (\<lambda>fo. sale_id fo = Some i \<and> sale_line_id fo = None) (fsm_order_table e)"

definition found :: "env \<Rightarrow> nat \<Rightarrow> nat option" where
  "found e i =
     (if order_level e i = [] then None else Some (fo_id (last (order_level e i))))"

text \<open>The environment that \<^verbatim>\<open>_field_create_fsm_order\<close> leaves, called on one order.\<close>

definition created :: "env \<Rightarrow> sale_order \<Rightarrow> env" where
  "created e so =
     snd (field_create_fsm_order e [so] :: (unit error + (nat \<rightharpoonup> nat)) \<times> env)"

text \<open>
  The templates as the order's lines give them: the template of the product of each line
  tracked \<^verbatim>\<open>"sale"\<close>, line by line, a line without product or whose product has no
  template giving none.
\<close>

definition template_of_line :: "sale_order_line \<Rightarrow> fsm_template option" where
  "template_of_line sol =
     (case product_id sol of None \<Rightarrow> None | Some p \<Rightarrow> fsm_order_template_id p)"

fun line_templates :: "sale_order_line list \<Rightarrow> fsm_template list" where
  "line_templates [] = []"
| "line_templates (sol # lines) =
     (if tracking sol = Some ''sale''
      then (case template_of_line sol of
              None \<Rightarrow> line_templates lines
            | Some t \<Rightarrow> t # line_templates lines)
      else line_templates lines)"

text \<open>
  \<open>keep_first key seen xs\<close> goes through \<open>xs\<close> and keeps an element unless its identifier
  is in \<open>seen\<close> or was met earlier in \<open>xs\<close>. \<open>once_each\<close> keeps each template where it
  first stands.
\<close>

fun keep_first :: "('a \<Rightarrow> nat) \<Rightarrow> nat set \<Rightarrow> 'a list \<Rightarrow> 'a list" where
  "keep_first key seen [] = []"
| "keep_first key seen (x # xs) =
     (if key x \<in> seen then keep_first key seen xs
      else x # keep_first key (insert (key x) seen) xs)"

definition once_each :: "fsm_template list \<Rightarrow> fsm_template list" where
  "once_each ts = keep_first tmpl_id {} ts"

text \<open>
  The lines of the order hold one record per product identifier: two lines whose products
  have the same identifier have the same product. This holds of every snapshot of a
  database.
\<close>

definition one_record_per_product :: "sale_order \<Rightarrow> bool" where
  "one_record_per_product so =
     (\<forall>sol \<in> set (order_line so). \<forall>sol' \<in> set (order_line so). \<forall>p p'.
        product_id sol = Some p \<and> product_id sol' = Some p' \<and> prod_id p = prod_id p' \<longrightarrow>
        p = p')"

subsection \<open>Sample records\<close>

definition template_A :: fsm_template where
  "template_A =
     \<lparr>tmpl_id = 1, instructions = Some ''A'', duration = 1.5, tmpl_category_ids = [1, 2]\<rparr>"

definition template_B :: fsm_template where
  "template_B =
     \<lparr>tmpl_id = 2, instructions = Some ''B'', duration = 2.0, tmpl_category_ids = [2, 3]\<rparr>"

definition product_A :: product where
  "product_A =
     \<lparr>prod_id = 1, field_service_tracking = Some ''sale'',
      fsm_order_template_id = Some template_A\<rparr>"

definition product_B :: product where
  "product_B =
     \<lparr>prod_id = 2, field_service_tracking = Some ''sale'',
      fsm_order_template_id = Some template_B\<rparr>"

definition product_plain :: product where
  "product_plain =
     \<lparr>prod_id = 3, field_service_tracking = Some ''no'', fsm_order_template_id = None\<rparr>"

definition product_per_line :: product where
  "product_per_line =
     \<lparr>prod_id = 4, field_service_tracking = Some ''line'', fsm_order_template_id = None\<rparr>"

definition parent_company :: res_partner where
  "parent_company = \<lparr>p_id = 10, commercial_partner_id = Some 10, fsm_location = False\<rparr>"

definition contact :: res_partner where
  "contact = \<lparr>p_id = 11, commercial_partner_id = Some 10, fsm_location = False\<rparr>"

definition site_partner :: res_partner where
  "site_partner = \<lparr>p_id = 12, commercial_partner_id = Some 10, fsm_location = True\<rparr>"

definition head_office :: fsm_location_rec where
  "head_office = \<lparr>loc_id = 1, loc_partner_id = 10, direction = Some ''Second floor''\<rparr>"

definition warehouse :: fsm_location_rec where
  "warehouse = \<lparr>loc_id = 2, loc_partner_id = 12, direction = None\<rparr>"

text \<open>A sale order of \<open>contact\<close> with the given identifier, lines and service location.\<close>

definition sample_order ::
  "nat \<Rightarrow> sale_order_line list \<Rightarrow> fsm_location_rec option \<Rightarrow> sale_order" where
  "sample_order i lines loc =
     \<lparr>so_id = i, so_name = ''S0000'', partner_id = Some contact,
      partner_shipping_id = Some contact, fsm_location_id = loc, fsm_order_ids = [],
      fsm_order_count = 0, expected_date = Some 20190401, so_company_id = Some 1,
      order_line = lines\<rparr>"

definition line_A :: sale_order_line where
  "line_A = \<lparr>sol_id = 1, product_id = Some product_A\<rparr>"

definition line_B :: sale_order_line where
  "line_B = \<lparr>sol_id = 2, product_id = Some product_B\<rparr>"

definition order_AB :: sale_order where
  "order_AB = sample_order 7 [line_A, line_B] (Some head_office)"

definition order_plain :: sale_order where
  "order_plain = sample_order 8 [\<lparr>sol_id = 3, product_id = Some product_plain\<rparr>] None"

definition sample_env :: "fsm_order list \<Rightarrow> env" where
  "sample_env rows =
     \<lparr>fsm_order_table = rows, fsm_location_table = [head_office, warehouse],
      messages = [], fsm_order_sequence = (\<lambda>i. ''FSM'')\<rparr>"

definition site_without_location :: res_partner where
  "site_without_location = \<lparr>p_id = 13, commercial_partner_id = Some 10, fsm_location = True\<rparr>"

definition order_per_line :: sale_order where
  "order_per_line =
     sample_order 9 [\<lparr>sol_id = 4, product_id = Some product_per_line\<rparr>] None"

definition sample_fsm_order :: "nat \<Rightarrow> nat option \<Rightarrow> nat option \<Rightarrow> fsm_order" where
  "sample_fsm_order i so line =
     \<lparr>location_id = Some 1, location_directions = None, request_early = None,
      scheduled_date_start = None, todo = '''', category_ids = [], scheduled_duration = 0,
      sale_id = so, company_id = Some 1, fo_id = i, fo_name = ''FSM'', sale_line_id = line\<rparr>"

text \<open>
  Sample collaborators of the confirmation: an inherited confirmation that returns
  \<open>True\<close> and leaves the environment alone, and a generation that always raises.
\<close>

definition sample_super :: "env \<Rightarrow> sale_order list \<Rightarrow> (unit + bool) \<times> env" where
  "sample_super e self = (Inr True, e)"

definition sample_generation :: "env \<Rightarrow> sale_order_line list \<Rightarrow> (unit + unit) \<times> env" where
  "sample_generation e lines = (Inl (), e)"

definition template_C :: fsm_template where
  "template_C =
     \<lparr>tmpl_id = 3, instructions = None, duration = 0.5, tmpl_category_ids = [3, 4]\<rparr>"

definition product_C :: product where
  "product_C =
     \<lparr>prod_id = 5, field_service_tracking = Some ''sale'',
      fsm_order_template_id = Some template_C\<rparr>"

definition order_AA :: sale_order where
  "order_AA =
     sample_order 10 [line_A, \<lparr>sol_id = 5, product_id = Some product_A\<rparr>] (Some head_office)"

definition order_ABAC :: sale_order where
  "order_ABAC =
     sample_order 12
       [line_A, line_B, \<lparr>sol_id = 5, product_id = Some product_A\<rparr>,
        \<lparr>sol_id = 7, product_id = Some product_plain\<rparr>,
        \<lparr>sol_id = 8, product_id = Some product_C\<rparr>]
       (Some head_office)"

definition order_with_note :: sale_order where
  "order_with_note =
     sample_order 11
       [\<lparr>sol_id = 3, product_id = Some product_plain\<rparr>, \<lparr>sol_id = 6, product_id = None\<rparr>]
       None"

section \<open>Properties\<close>

subsection \<open>Unions of recordsets\<close>

lemma set_union_acc:
  "set (map key (union_acc key acc xs)) = set (map key acc) \<union> set (map key xs)"
  by (induction xs arbitrary: acc) auto

lemma distinct_union_acc:
  "distinct (map key acc) \<Longrightarrow> distinct (map key (union_acc key acc xs))"
  by (induction xs arbitrary: acc) auto

lemma set_rs_union_ids: "set (rs_union (\<lambda>i. i) a b) = set a \<union> set b"
  using set_union_acc [of "\<lambda>i. i" "[]" "a @ b"]
  by (simp add: rs_union_def union_records_def)

lemma distinct_rs_union_ids: "distinct (rs_union (\<lambda>i. i) a b)"
  using distinct_union_acc [of "\<lambda>i. i" "[]" "a @ b"]
  by (simp add: rs_union_def union_records_def)

subsection \<open>The loop over the templates\<close>

lemma foldl_aggregate_step:
  "foldl aggregate_step (n0, h0, c0) ts =
     (n0 @ concat (map (\<lambda>t. case instructions t of None \<Rightarrow> '''' | Some s \<Rightarrow> s) ts),
      h0 + sum_list (map duration ts),
      foldl (\<lambda>c t. rs_union (\<lambda>i. i) c (tmpl_category_ids t)) c0 ts)"
  by (induction ts arbitrary: n0 h0 c0) (simp_all add: aggregate_step_def add.assoc)

lemma set_foldl_categories:
  "set (foldl (\<lambda>c t. rs_union (\<lambda>i. i) c (tmpl_category_ids t)) c0 ts) =
     set c0 \<union> (\<Union>t \<in> set ts. set (tmpl_category_ids t))"
  by (induction ts arbitrary: c0) (auto simp: set_rs_union_ids)

lemma distinct_foldl_categories:
  "distinct c0 \<Longrightarrow>
     distinct (foldl (\<lambda>c t. rs_union (\<lambda>i. i) c (tmpl_category_ids t)) c0 ts)"
  by (induction ts arbitrary: c0) (simp_all add: distinct_rs_union_ids)

lemma prepare_values_singleton:
  "field_create_fsm_order_prepare_values [so] =
     Inr \<lparr> location_id = map_option loc_id (fsm_location_id so),
           location_directions =
             (case fsm_location_id so of None \<Rightarrow> None | Some l \<Rightarrow> direction l),
           request_early = expected_date so,
           scheduled_date_start = expected_date so,
           todo = concat (map (\<lambda>t. case instructions t of None \<Rightarrow> '''' | Some s \<Rightarrow> s)
                    (sale_templates so)),
           category_ids =
             foldl (\<lambda>c t. rs_union (\<lambda>i. i) c (tmpl_category_ids t)) [] (sale_templates so),
           scheduled_duration = sum_list (map duration (sale_templates so)),
           sale_id = Some (so_id so),
           company_id = so_company_id so \<rparr>"
  by (simp add: field_create_fsm_order_prepare_values_def ensure_one_def foldl_aggregate_step)


lemma sale_templates_two_lines:
  assumes "order_line so = [l1, l2]"
    and "product_id l1 = Some p1" and "product_id l2 = Some p2"
    and "field_service_tracking p1 = Some ''sale''"
    and "field_service_tracking p2 = Some ''sale''"
    and "fsm_order_template_id p1 = Some t1" and "fsm_order_template_id p2 = Some t2"
    and "prod_id p1 \<noteq> prod_id p2" and "tmpl_id t1 \<noteq> tmpl_id t2"
  shows "sale_templates so = [t1, t2]"
  using assms
  by (simp add: sale_templates_def tracking_def mapped_product_id_def
      mapped_fsm_order_template_id_def union_records_def recordset_of_def)

lemma sale_templates_no_sale_line:
  "list_all (\<lambda>sol. tracking sol \<noteq> Some ''sale'') (order_line so) \<Longrightarrow>
     sale_templates so = []"
  by (simp add: sale_templates_def mapped_product_id_def mapped_fsm_order_template_id_def
      union_records_def list_all_iff filter_empty_conv [THEN iffD2])

lemma set_union_acc_subset: "set (union_acc key acc xs) \<subseteq> set acc \<union> set xs"
proof (induction xs arbitrary: acc)
  case Nil
  then show ?case by simp
next
  case (Cons x xs)
  from Cons [of acc] Cons [of "acc @ [x]"] show ?case
    by (auto split: if_splits)
qed

lemma set_union_records_subset: "set (union_records key xs) \<subseteq> set xs"
  using set_union_acc_subset [of key "[]" xs] by (simp add: union_records_def)

lemma distinct_union_records: "distinct (map key (union_records key xs))"
  using distinct_union_acc [of key "[]" xs] by (simp add: union_records_def)

lemma sale_templates_distinct: "distinct (map tmpl_id (sale_templates so))"
  by (simp add: sale_templates_def mapped_fsm_order_template_id_def distinct_union_records)

lemma sale_templates_origin:
  assumes "t \<in> set (sale_templates so)"
  shows "\<exists>sol \<in> set (order_line so). \<exists>p.
           tracking sol = Some ''sale'' \<and> product_id sol = Some p \<and>
           fsm_order_template_id p = Some t"
proof -
  let ?lines = "filter (\<lambda>sol. tracking sol = Some ''sale'') (order_line so)"
  from assms have "t \<in> set (concat (map (\<lambda>p. recordset_of (fsm_order_template_id p))
      (mapped_product_id ?lines)))"
    using set_union_records_subset
    by (fastforce simp: sale_templates_def mapped_fsm_order_template_id_def)
  then obtain p where p: "p \<in> set (mapped_product_id ?lines)"
    and t: "fsm_order_template_id p = Some t"
    by (auto simp: recordset_of_def split: option.splits)
  from p have "p \<in> set (concat (map (\<lambda>sol. recordset_of (product_id sol)) ?lines))"
    using set_union_records_subset by (fastforce simp: mapped_product_id_def)
  then obtain sol where "sol \<in> set ?lines" "product_id sol = Some p"
    by (auto simp: recordset_of_def split: option.splits)
  with t show ?thesis by auto
qed

lemma union_acc_keep_first:
  "union_acc key acc xs = acc @ keep_first key (key ` set acc) xs"
  by (induction xs arbitrary: acc) simp_all

lemma union_records_keep_first: "union_records key xs = keep_first key {} xs"
  by (simp add: union_records_def union_acc_keep_first)

lemma keep_first_templates_of_products:
  assumes "\<forall>p \<in> set ps. \<forall>t. prod_id p \<in> pseen \<and> fsm_order_template_id p = Some t \<longrightarrow>
             tmpl_id t \<in> tseen"
    and "\<forall>p \<in> set ps. \<forall>q \<in> set ps. prod_id p = prod_id q \<longrightarrow>
             fsm_order_template_id p = fsm_order_template_id q"
  shows "keep_first tmpl_id tseen
           (concat (map (\<lambda>p. recordset_of (fsm_order_template_id p))
              (keep_first prod_id pseen ps))) =
         keep_first tmpl_id tseen
           (concat (map (\<lambda>p. recordset_of (fsm_order_template_id p)) ps))"
  using assms
proof (induction ps arbitrary: pseen tseen)
  case Nil
  show ?case by simp
next
  case (Cons p ps)
  have mem: "p \<in> set (p # ps)" "\<And>a. a \<in> set ps \<Longrightarrow> a \<in> set (p # ps)"
    by simp_all
  have same: "fsm_order_template_id q = fsm_order_template_id p"
    if "q \<in> set ps" "prod_id q = prod_id p" for q
    using Cons.prems(2) mem that by blast
  have cons: "\<forall>a \<in> set ps. \<forall>b \<in> set ps. prod_id a = prod_id b \<longrightarrow>
      fsm_order_template_id a = fsm_order_template_id b"
    using Cons.prems(2) mem(2) by blast
  have old: "tmpl_id t \<in> tseen"
    if "a \<in> set (p # ps)" "prod_id a \<in> pseen" "fsm_order_template_id a = Some t" for a t
    using Cons.prems(1) that by blast
  show ?case
  proof (cases "prod_id p \<in> pseen")
    case True
    have "\<forall>a \<in> set ps. \<forall>t.
        prod_id a \<in> pseen \<and> fsm_order_template_id a = Some t \<longrightarrow> tmpl_id t \<in> tseen"
      using old mem(2) by blast
    note IH = Cons.IH [OF this cons]
    show ?thesis
    proof (cases "fsm_order_template_id p")
      case None
      have "keep_first prod_id pseen (p # ps) = keep_first prod_id pseen ps"
        using True by simp
      moreover have "concat (map (\<lambda>p. recordset_of (fsm_order_template_id p)) (p # ps)) =
          concat (map (\<lambda>p. recordset_of (fsm_order_template_id p)) ps)"
        using None by (simp add: recordset_of_def)
      ultimately show ?thesis using IH by simp
    next
      case (Some t)
      from True Some old [OF mem(1)] have t: "tmpl_id t \<in> tseen" by blast
      have "keep_first prod_id pseen (p # ps) = keep_first prod_id pseen ps"
        using True by simp
      moreover have "keep_first tmpl_id tseen
            (concat (map (\<lambda>p. recordset_of (fsm_order_template_id p)) (p # ps))) =
          keep_first tmpl_id tseen
            (concat (map (\<lambda>p. recordset_of (fsm_order_template_id p)) ps))"
        using Some t by (simp add: recordset_of_def)
      ultimately show ?thesis using IH by simp
    qed
  next
    case False
    have step: "keep_first prod_id pseen (p # ps) =
        p # keep_first prod_id (insert (prod_id p) pseen) ps"
      using False by simp
    show ?thesis
    proof (cases "fsm_order_template_id p")
      case None
      have "\<forall>a \<in> set ps. \<forall>t. prod_id a \<in> insert (prod_id p) pseen \<and>
          fsm_order_template_id a = Some t \<longrightarrow> tmpl_id t \<in> tseen"
      proof (intro ballI allI impI)
        fix a t
        assume a: "a \<in> set ps"
          and h: "prod_id a \<in> insert (prod_id p) pseen \<and> fsm_order_template_id a = Some t"
        show "tmpl_id t \<in> tseen"
        proof (cases "prod_id a = prod_id p")
          case True
          from same [OF a True] None h show ?thesis by simp
        next
          case False
          with h have "prod_id a \<in> pseen" by simp
          from old [OF mem(2) [OF a] this] h show ?thesis by blast
        qed
      qed
      note IH = Cons.IH [OF this cons]
      show ?thesis
        unfolding step using None IH by (simp add: recordset_of_def)
    next
      case (Some t)
      have "\<forall>a \<in> set ps. \<forall>u. prod_id a \<in> insert (prod_id p) pseen \<and>
          fsm_order_template_id a = Some u \<longrightarrow> tmpl_id u \<in> insert (tmpl_id t) tseen"
      proof (intro ballI allI impI)
        fix a u
        assume a: "a \<in> set ps"
          and h: "prod_id a \<in> insert (prod_id p) pseen \<and> fsm_order_template_id a = Some u"
        show "tmpl_id u \<in> insert (tmpl_id t) tseen"
        proof (cases "prod_id a = prod_id p")
          case True
          from same [OF a True] Some h show ?thesis by simp
        next
          case False
          with h have "prod_id a \<in> pseen" by simp
          from old [OF mem(2) [OF a] this] h show ?thesis by blast
        qed
      qed
      note IH = Cons.IH [OF this cons]
      show ?thesis
      proof (cases "tmpl_id t \<in> tseen")
        case True
        then have "insert (tmpl_id t) tseen = tseen" by (rule insert_absorb)
        with IH have "keep_first tmpl_id tseen
            (concat (map (\<lambda>p. recordset_of (fsm_order_template_id p))
               (keep_first prod_id (insert (prod_id p) pseen) ps))) =
          keep_first tmpl_id tseen
            (concat (map (\<lambda>p. recordset_of (fsm_order_template_id p)) ps))"
          by simp
        then show ?thesis
          unfolding step using Some True by (simp add: recordset_of_def)
      next
        case no: False
        show ?thesis
          unfolding step using Some no IH by (simp add: recordset_of_def)
      qed
    qed
  qed
qed

lemma templates_of_sale_lines:
  "concat (map (\<lambda>p. recordset_of (fsm_order_template_id p))
     (concat (map (\<lambda>sol. recordset_of (product_id sol))
        (filter (\<lambda>sol. tracking sol = Some ''sale'') lines)))) = line_templates lines"
  by (induction lines)
    (auto simp: recordset_of_def template_of_line_def split: option.splits)

lemma sale_templates_once_each:
  assumes "one_record_per_product so"
  shows "sale_templates so = once_each (line_templates (order_line so))"
proof -
  let ?ps = "concat (map (\<lambda>sol. recordset_of (product_id sol))
        (filter (\<lambda>sol. tracking sol = Some ''sale'') (order_line so)))"
  have origin: "\<exists>sol \<in> set (order_line so). product_id sol = Some p" if "p \<in> set ?ps" for p
    using that by (auto simp: recordset_of_def split: option.splits)
  have consistent: "\<forall>p \<in> set ?ps. \<forall>q \<in> set ?ps. prod_id p = prod_id q \<longrightarrow>
      fsm_order_template_id p = fsm_order_template_id q"
  proof (intro ballI impI)
    fix p q assume p: "p \<in> set ?ps" and q: "q \<in> set ?ps" and eq: "prod_id p = prod_id q"
    from origin [OF p] origin [OF q] eq assms have "p = q"
      unfolding one_record_per_product_def by blast
    then show "fsm_order_template_id p = fsm_order_template_id q" by (rule arg_cong)
  qed
  have nothing_seen: "\<forall>p \<in> set ?ps. \<forall>t.
      prod_id p \<in> {} \<and> fsm_order_template_id p = Some t \<longrightarrow> tmpl_id t \<in> {}"
    by simp
  have "sale_templates so =
      keep_first tmpl_id {}
        (concat (map (\<lambda>p. recordset_of (fsm_order_template_id p))
           (keep_first prod_id {} ?ps)))"
    by (simp add: sale_templates_def mapped_product_id_def mapped_fsm_order_template_id_def
        union_records_keep_first Let_def)
  also have "\<dots> =
      keep_first tmpl_id {} (concat (map (\<lambda>p. recordset_of (fsm_order_template_id p)) ?ps))"
    by (rule keep_first_templates_of_products [OF nothing_seen consistent])
  also have "\<dots> = once_each (line_templates (order_line so))"
    unfolding templates_of_sale_lines once_each_def ..
  finally show ?thesis .
qed

lemma keep_first_keys:
  "key ` set (keep_first key seen xs) = key ` set xs - seen"
  by (induction xs arbitrary: seen) auto

lemma keep_first_distinct: "distinct (map key (keep_first key seen xs))"
proof (induction xs arbitrary: seen)
  case Nil
  then show ?case by simp
next
  case (Cons x xs)
  have "key x \<notin> key ` set (keep_first key (insert (key x) seen) xs)"
    unfolding keep_first_keys by simp
  with Cons show ?case by simp
qed

lemma keep_first_all:
  "distinct (map key xs) \<Longrightarrow> key ` set xs \<inter> seen = {} \<Longrightarrow> keep_first key seen xs = xs"
proof (induction xs arbitrary: seen)
  case Nil
  then show ?case by simp
next
  case (Cons x xs)
  from Cons.prems have "key x \<notin> seen" "distinct (map key xs)"
    "key ` set xs \<inter> insert (key x) seen = {}"
    by auto
  with Cons.IH [of "insert (key x) seen"] show ?case by simp
qed

lemma once_each_all: "distinct (map tmpl_id ts) \<Longrightarrow> once_each ts = ts"
  by (simp add: once_each_def keep_first_all)

lemma line_templates_order_AA:
  "line_templates (order_line order_AA) = [template_A, template_A]"
  by (simp add: order_AA_def sample_order_def line_A_def tracking_def template_of_line_def
      product_A_def)

lemma sale_templates_order_AA: "sale_templates order_AA = [template_A]"
  by (simp add: sale_templates_def order_AA_def sample_order_def line_A_def
      tracking_def mapped_product_id_def mapped_fsm_order_template_id_def union_records_def
      recordset_of_def product_A_def template_A_def)

subsection \<open>Fresh identifiers\<close>

lemma fold_max_ge: "i \<in> set xs \<Longrightarrow> i \<le> fold max xs (m::nat)"
proof (induction xs arbitrary: m)
  case Nil
  then show ?case by simp
next
  case (Cons x xs)
  have "m \<le> fold max ys m" for ys :: "nat list" and m
    by (induction ys arbitrary: m) (auto intro: order_trans [OF max.cobounded2])
  then have "max x m \<le> fold max xs (max x m)" .
  with Cons show ?case by auto
qed

lemma new_id_fresh: "fo \<in> set rows \<Longrightarrow> fo_id fo < new_id rows"
  using fold_max_ge [of "fo_id fo" "map fo_id rows" 0] by (simp add: new_id_def)

subsection \<open>Claims on the values of a new field service order\<close>

text \<open>
  C9. \<^verbatim>\<open>_field_create_fsm_order_prepare_values\<close> needs exactly one sale order: on a
  recordset of any other size it fails, with the \<^verbatim>\<open>ValueError\<close> of \<^verbatim>\<open>ensure_one\<close>, and
  on a recordset of one order it returns a value, so that the failure cannot occur there.
\<close>

theorem prepare_values_requires_singleton:
  "(length self \<noteq> 1 \<longrightarrow>
      field_create_fsm_order_prepare_values self = Inl (ValueError ''Expected singleton'')) \<and>
   (length self = 1 \<longrightarrow> (\<exists>v. field_create_fsm_order_prepare_values self = Inr v))"
proof (cases self)
  case Nil
  then show ?thesis
    by (simp add: field_create_fsm_order_prepare_values_def ensure_one_def)
next
  case (Cons so rest)
  show ?thesis
  proof (cases rest)
    case Nil
    with Cons show ?thesis by (simp add: prepare_values_singleton)
  next
    case (Cons so2 rest2)
    with \<open>self = so # rest\<close> show ?thesis
      by (simp add: field_create_fsm_order_prepare_values_def ensure_one_def)
  qed
qed

theorem prepare_values_requires_singleton_witness:
  "field_create_fsm_order_prepare_values [] =
     (Inl (ValueError ''Expected singleton'') :: unit error + fsm_order_vals) \<and>
   field_create_fsm_order_prepare_values [order_AB, order_AB] =
     (Inl (ValueError ''Expected singleton'') :: unit error + fsm_order_vals) \<and>
   (\<exists>v. field_create_fsm_order_prepare_values [order_AB] =
      (Inr v :: unit error + fsm_order_vals))"
  using prepare_values_requires_singleton [of "[]"]
    prepare_values_requires_singleton [of "[order_AB, order_AB]"]
    prepare_values_requires_singleton [of "[order_AB]"]
  by simp



text \<open>
  C4. As the claim words it, the aggregates run over the template of the product of
  each line tracked \<^verbatim>\<open>"sale"\<close>, line by line. The method differs where two such lines
  reach the same template: \<^verbatim>\<open>mapped\<close> returns a recordset, which holds a record once.
  On an order with two lines of the same product, whose template has the text \<^verbatim>\<open>"A"\<close>
  and the duration 1.5, the line-by-line aggregates are \<^verbatim>\<open>"AA"\<close> and 3, and the values
  built carry \<^verbatim>\<open>"A"\<close> and 1.5.
\<close>

theorem prepare_values_shared_template_counterexample:
  "(\<exists>v. field_create_fsm_order_prepare_values [order_AA] =
          (Inr v :: unit error + fsm_order_vals) \<and>
        todo v = ''A'' \<and> scheduled_duration v = 1.5) \<and>
   line_templates (order_line order_AA) = [template_A, template_A] \<and>
   aggregated_instructions (line_templates (order_line order_AA)) = ''AA'' \<and>
   aggregated_hours (line_templates (order_line order_AA)) = 3 \<and>
   \<not> (\<exists>v. field_create_fsm_order_prepare_values [order_AA] =
            (Inr v :: unit error + fsm_order_vals) \<and>
          todo v = aggregated_instructions (line_templates (order_line order_AA)) \<and>
          scheduled_duration v = aggregated_hours (line_templates (order_line order_AA)))"
proof -
  have code: "field_create_fsm_order_prepare_values [order_AA] = Inr v \<Longrightarrow>
      todo v = ''A'' \<and> scheduled_duration v = 1.5" for v :: fsm_order_vals
    by (auto simp: prepare_values_singleton sale_templates_order_AA template_A_def)
  have ex: "\<exists>v. field_create_fsm_order_prepare_values [order_AA] =
      (Inr v :: unit error + fsm_order_vals)"
    by (simp add: prepare_values_singleton)
  have txt_eq: "aggregated_instructions (line_templates (order_line order_AA)) = ''AA''"
    by (simp add: line_templates_order_AA aggregated_instructions_def template_A_def)
  have hours_eq: "aggregated_hours (line_templates (order_line order_AA)) = 3"
    by (simp add: line_templates_order_AA aggregated_hours_def template_A_def)
  from ex code have first: "\<exists>v. field_create_fsm_order_prepare_values [order_AA] =
          (Inr v :: unit error + fsm_order_vals) \<and>
        todo v = ''A'' \<and> scheduled_duration v = 1.5"
    by blast
  have last: "\<not> (\<exists>v. field_create_fsm_order_prepare_values [order_AA] =
            (Inr v :: unit error + fsm_order_vals) \<and>
          todo v = aggregated_instructions (line_templates (order_line order_AA)) \<and>
          scheduled_duration v = aggregated_hours (line_templates (order_line order_AA)))"
    unfolding txt_eq hours_eq using code by force
  from first line_templates_order_AA txt_eq hours_eq last show ?thesis
    by blast
qed

text \<open>
  C4, amended. Let the lines of the order hold one record per product identifier. The
  values aggregate over the templates of the products of the lines tracked \<^verbatim>\<open>"sale"\<close>,
  taken in line order, a template that several lines reach being taken once, where the
  first of these lines stands: the notes are their instruction texts concatenated, the
  empty string standing for a missing text; the scheduled duration is the sum of their
  durations; the categories are the union of their categories, each once. When no
  template is reached twice, these are the aggregates over the template of every such
  line. In particular, for two lines with two products whose templates have durations 1.5
  and 2.0 and texts \<^verbatim>\<open>"A"\<close> and \<^verbatim>\<open>"B"\<close>, the duration is 3.5 and the notes are
  \<^verbatim>\<open>"AB"\<close>.
\<close>

theorem prepare_values_aggregates_once_each:
  "(one_record_per_product so \<longrightarrow>
      (\<exists>v. field_create_fsm_order_prepare_values [so] = Inr v \<and>
         todo v = aggregated_instructions (once_each (line_templates (order_line so))) \<and>
         scheduled_duration v =
           aggregated_hours (once_each (line_templates (order_line so))) \<and>
         set (category_ids v) =
           aggregated_categories (once_each (line_templates (order_line so))) \<and>
         distinct (category_ids v) \<and>
         (distinct (map tmpl_id (line_templates (order_line so))) \<longrightarrow>
            todo v = aggregated_instructions (line_templates (order_line so)) \<and>
            scheduled_duration v = aggregated_hours (line_templates (order_line so)) \<and>
            set (category_ids v) = aggregated_categories (line_templates (order_line so))))) \<and>
   (order_line so = [l1, l2] \<and>
    product_id l1 = Some p1 \<and> product_id l2 = Some p2 \<and>
    field_service_tracking p1 = Some ''sale'' \<and>
    field_service_tracking p2 = Some ''sale'' \<and>
    fsm_order_template_id p1 = Some t1 \<and> fsm_order_template_id p2 = Some t2 \<and>
    prod_id p1 \<noteq> prod_id p2 \<and> tmpl_id t1 \<noteq> tmpl_id t2 \<and>
    duration t1 = 1.5 \<and> duration t2 = 2.0 \<and>
    instructions t1 = Some ''A'' \<and> instructions t2 = Some ''B'' \<longrightarrow>
    (\<exists>v. field_create_fsm_order_prepare_values [so] = Inr v \<and>
       scheduled_duration v = 3.5 \<and> todo v = ''AB''))"
proof (intro conjI impI)
  let ?ts = "line_templates (order_line so)"
  assume "one_record_per_product so"
  then have ts: "sale_templates so = once_each ?ts"
    by (rule sale_templates_once_each)
  let ?v = "\<lparr> location_id = map_option loc_id (fsm_location_id so),
           location_directions =
             (case fsm_location_id so of None \<Rightarrow> None | Some l \<Rightarrow> direction l),
           request_early = expected_date so,
           scheduled_date_start = expected_date so,
           todo = concat (map (\<lambda>t. case instructions t of None \<Rightarrow> '''' | Some s \<Rightarrow> s)
                    (once_each ?ts)),
           category_ids =
             foldl (\<lambda>c t. rs_union (\<lambda>i. i) c (tmpl_category_ids t)) [] (once_each ?ts),
           scheduled_duration = sum_list (map duration (once_each ?ts)),
           sale_id = Some (so_id so),
           company_id = so_company_id so \<rparr>"
  have "field_create_fsm_order_prepare_values [so] = Inr ?v"
    unfolding ts [symmetric] by (rule prepare_values_singleton)
  moreover have "todo ?v = aggregated_instructions (once_each ?ts)"
    by (simp add: aggregated_instructions_def)
  moreover have "scheduled_duration ?v = aggregated_hours (once_each ?ts)"
    by (simp add: aggregated_hours_def)
  moreover have "set (category_ids ?v) = aggregated_categories (once_each ?ts)"
    by (simp add: aggregated_categories_def set_foldl_categories)
  moreover have "distinct (category_ids ?v)"
    by (simp add: distinct_foldl_categories)
  moreover have "distinct (map tmpl_id ?ts) \<longrightarrow>
            todo ?v = aggregated_instructions ?ts \<and>
            scheduled_duration ?v = aggregated_hours ?ts \<and>
            set (category_ids ?v) = aggregated_categories ?ts"
  proof
    assume "distinct (map tmpl_id ?ts)"
    then have "once_each ?ts = ?ts" by (rule once_each_all)
    then show "todo ?v = aggregated_instructions ?ts \<and>
            scheduled_duration ?v = aggregated_hours ?ts \<and>
            set (category_ids ?v) = aggregated_categories ?ts"
      by (simp add: aggregated_instructions_def aggregated_hours_def
          aggregated_categories_def set_foldl_categories)
  qed
  ultimately show "\<exists>v. field_create_fsm_order_prepare_values [so] = Inr v \<and>
         todo v = aggregated_instructions (once_each ?ts) \<and>
         scheduled_duration v = aggregated_hours (once_each ?ts) \<and>
         set (category_ids v) = aggregated_categories (once_each ?ts) \<and>
         distinct (category_ids v) \<and>
         (distinct (map tmpl_id ?ts) \<longrightarrow>
            todo v = aggregated_instructions ?ts \<and>
            scheduled_duration v = aggregated_hours ?ts \<and>
            set (category_ids v) = aggregated_categories ?ts)"
    by blast
next
  assume h: "order_line so = [l1, l2] \<and>
    product_id l1 = Some p1 \<and> product_id l2 = Some p2 \<and>
    field_service_tracking p1 = Some ''sale'' \<and>
    field_service_tracking p2 = Some ''sale'' \<and>
    fsm_order_template_id p1 = Some t1 \<and> fsm_order_template_id p2 = Some t2 \<and>
    prod_id p1 \<noteq> prod_id p2 \<and> tmpl_id t1 \<noteq> tmpl_id t2 \<and>
    duration t1 = 1.5 \<and> duration t2 = 2.0 \<and>
    instructions t1 = Some ''A'' \<and> instructions t2 = Some ''B''"
  then have "sale_templates so = [t1, t2]"
    using sale_templates_two_lines [of so l1 l2 p1 p2 t1 t2] by blast
  with h show "\<exists>v. field_create_fsm_order_prepare_values [so] = Inr v \<and>
       scheduled_duration v = 3.5 \<and> todo v = ''AB''"
    by (simp add: prepare_values_singleton)
qed

lemma one_record_per_product_order_ABAC: "one_record_per_product order_ABAC"
  by (simp add: one_record_per_product_def order_ABAC_def sample_order_def line_A_def
      line_B_def product_A_def product_B_def product_C_def product_plain_def)

lemma once_each_order_ABAC:
  "line_templates (order_line order_ABAC) = [template_A, template_B, template_A, template_C]"
  "once_each (line_templates (order_line order_ABAC)) = [template_A, template_B, template_C]"
  by (simp_all add: once_each_def order_ABAC_def sample_order_def line_A_def line_B_def
      tracking_def template_of_line_def product_A_def product_B_def product_C_def
      product_plain_def template_A_def template_B_def template_C_def)

theorem prepare_values_aggregates_once_each_witness:
  "one_record_per_product order_ABAC \<and>
   line_templates (order_line order_ABAC) =
     [template_A, template_B, template_A, template_C] \<and>
   (\<exists>v. field_create_fsm_order_prepare_values [order_ABAC] =
          (Inr v :: unit error + fsm_order_vals) \<and>
        todo v = ''AB'' \<and> scheduled_duration v = 4 \<and>
        set (category_ids v) = {1, 2, 3, 4} \<and> distinct (category_ids v))"
proof -
  have txt_eq:
    "aggregated_instructions (once_each (line_templates (order_line order_ABAC))) = ''AB''"
    by (simp add: once_each_order_ABAC(2) aggregated_instructions_def template_A_def
        template_B_def template_C_def)
  have hours_eq:
    "aggregated_hours (once_each (line_templates (order_line order_ABAC))) = 4"
    by (simp add: once_each_order_ABAC(2) aggregated_hours_def template_A_def template_B_def
        template_C_def)
  have cats_eq:
    "aggregated_categories (once_each (line_templates (order_line order_ABAC))) =
       {1, 2, 3, 4}"
    by (auto simp: once_each_order_ABAC(2) aggregated_categories_def template_A_def
        template_B_def template_C_def)
  from prepare_values_aggregates_once_each [of order_ABAC, THEN conjunct1, rule_format,
      OF one_record_per_product_order_ABAC]
  have "\<exists>v. field_create_fsm_order_prepare_values [order_ABAC] =
          (Inr v :: unit error + fsm_order_vals) \<and>
        todo v = ''AB'' \<and> scheduled_duration v = 4 \<and>
        set (category_ids v) = {1, 2, 3, 4} \<and> distinct (category_ids v)"
    unfolding txt_eq hours_eq cats_eq by blast
  with one_record_per_product_order_ABAC once_each_order_ABAC(1) show ?thesis
    by blast
qed

subsection \<open>Claims on creation\<close>

text \<open>
  C10. For a sale order none of whose lines has tracking \<^verbatim>\<open>"sale"\<close>, the values are
  still complete, with empty notes, a scheduled duration of 0 and no category; and
  \<^verbatim>\<open>_field_create_fsm_order\<close> on such an order neither fails nor skips the creation: it
  returns the new field service order for the order and has added exactly that row, with
  these empty aggregates, under an identifier not in use before.
\<close>

theorem create_without_sale_line:
  assumes "list_all (\<lambda>sol. tracking sol \<noteq> Some ''sale'') (order_line so)"
  shows "(\<exists>v. field_create_fsm_order_prepare_values [so] = Inr v \<and>
            todo v = '''' \<and> scheduled_duration v = 0 \<and> category_ids v = []) \<and>
         (\<exists>row e'. field_create_fsm_order e [so] = (Inr [so_id so \<mapsto> fo_id row], e') \<and>
            fsm_order_table e' = fsm_order_table e @ [row] \<and>
            fo_id row \<notin> fo_id ` set (fsm_order_table e) \<and>
            sale_id row = Some (so_id so) \<and> sale_line_id row = None \<and>
            todo row = '''' \<and> scheduled_duration row = 0 \<and> category_ids row = [])"
proof -
  have ts: "sale_templates so = []"
    using assms by (rule sale_templates_no_sale_line)
  have fresh: "new_id (fsm_order_table e) \<notin> fo_id ` set (fsm_order_table e)"
    using new_id_fresh [of _ "fsm_order_table e"] by force
  have first: "\<exists>v. field_create_fsm_order_prepare_values [so] = Inr v \<and>
            todo v = '''' \<and> scheduled_duration v = 0 \<and> category_ids v = []"
    by (simp add: prepare_values_singleton ts)
  have second: "\<exists>row e'. field_create_fsm_order e [so] = (Inr [so_id so \<mapsto> fo_id row], e') \<and>
            fsm_order_table e' = fsm_order_table e @ [row] \<and>
            fo_id row \<notin> fo_id ` set (fsm_order_table e) \<and>
            sale_id row = Some (so_id so) \<and> sale_line_id row = None \<and>
            todo row = '''' \<and> scheduled_duration row = 0 \<and> category_ids row = []"
    using fresh
    by (simp add: field_create_fsm_order_def prepare_values_singleton ts create_def Let_def
        message_post_def)
  from first second show ?thesis by blast
qed

lemma tracking_samples:
  "tracking \<lparr>sol_id = 3, product_id = Some product_plain\<rparr> = Some ''no''"
  "tracking \<lparr>sol_id = 4, product_id = Some product_per_line\<rparr> = Some ''line''"
  by (simp_all add: tracking_def product_plain_def product_per_line_def)

theorem create_without_sale_line_witness:
  "(\<exists>v. field_create_fsm_order_prepare_values [order_plain] =
          (Inr v :: unit error + fsm_order_vals) \<and>
        todo v = '''' \<and> scheduled_duration v = 0 \<and> category_ids v = []) \<and>
   (\<exists>row e'. field_create_fsm_order (sample_env []) [order_plain] =
          ((Inr [8 \<mapsto> fo_id row], e') :: (unit error + (nat \<rightharpoonup> nat)) \<times> env) \<and>
        fsm_order_table e' = [row] \<and> sale_id row = Some 8 \<and> sale_line_id row = None \<and>
        todo row = '''' \<and> scheduled_duration row = 0 \<and> category_ids row = [])"
proof -
  have lines: "list_all (\<lambda>sol. tracking sol \<noteq> Some ''sale'') (order_line order_plain)"
    by (simp add: order_plain_def sample_order_def tracking_samples)
  have ids: "so_id order_plain = 8" "fsm_order_table (sample_env []) = []"
    by (simp_all add: order_plain_def sample_order_def sample_env_def)
  show ?thesis
    using create_without_sale_line [OF lines, of "sample_env []"]
    unfolding ids by simp
qed

subsection \<open>Claims on confirmation\<close>

lemma rs_order_line_single: "rs_order_line [so] = order_line so"
  by (simp add: rs_order_line_def)

lemma rs_fsm_location_id_single:
  "rs_fsm_location_id [so] = recordset_of (fsm_location_id so)"
  by (simp add: rs_fsm_location_id_def)

text \<open>
  When every line of the order has a product and the product has tracking \<^verbatim>\<open>"no"\<close>,
  the confirmation is the inherited confirmation and nothing more: it returns what the
  inherited method returned (or passes on what it raised), it leaves the environment the
  inherited method left, so that the generation never runs, and it never raises the
  validation error.
\<close>

lemma confirm_all_products_no:
  assumes "list_all (\<lambda>sol. tracking sol = Some ''no'') (order_line so)"
  shows "fst (action_confirm super field_service_generation e [so]) =
           map_sum Propagated (\<lambda>r. r) (fst (super e [so])) \<and>
         snd (action_confirm super field_service_generation e [so]) = snd (super e [so]) \<and>
         (\<forall>msg. fst (action_confirm super field_service_generation e [so]) \<noteq>
            Inl (ValidationError msg))"
proof -
  from assms have "\<not> list_ex (\<lambda>sol. tracking sol \<noteq> Some ''no'') (order_line so)"
    by (simp add: list_all_iff list_ex_iff)
  then show ?thesis
    by (simp add: action_confirm_def rs_order_line_single split: prod.splits sum.splits)
qed

lemma confirm_all_products_no_sample:
  "action_confirm sample_super sample_generation (sample_env []) [order_plain] =
     (Inr True, sample_env [])"
proof -
  have lines: "list_all (\<lambda>sol. tracking sol = Some ''no'') (order_line order_plain)"
    by (simp add: order_plain_def sample_order_def tracking_samples)
  show ?thesis
    using confirm_all_products_no
      [OF lines, of sample_super sample_generation "sample_env []"]
    by (simp add: sample_super_def prod_eq_iff)
qed

text \<open>
  C2. When some line of the order has a tracking other than \<^verbatim>\<open>"no"\<close> and the order has
  no service location, the confirmation never returns a result: once the inherited
  confirmation has returned, it raises the validation error
  \<^verbatim>\<open>"FSM Location must be set"\<close>. The environment is the one the inherited confirmation
  left: the generation has not run, and the method has created no field service order.
\<close>

theorem confirm_without_location:
  assumes "list_ex (\<lambda>sol. tracking sol \<noteq> Some ''no'') (order_line so)"
    and "fsm_location_id so = None"
  shows "snd (action_confirm super field_service_generation e [so]) = snd (super e [so]) \<and>
         (\<forall>r. fst (super e [so]) = Inr r \<longrightarrow>
            fst (action_confirm super field_service_generation e [so]) =
              Inl (ValidationError ''FSM Location must be set'')) \<and>
         (\<forall>r. fst (action_confirm super field_service_generation e [so]) \<noteq> Inr r)"
  using assms
  by (simp add: action_confirm_def rs_order_line_single rs_fsm_location_id_single
      recordset_of_def split: prod.splits sum.splits)

theorem confirm_without_location_witness:
  "action_confirm sample_super sample_generation (sample_env []) [order_per_line] =
     (Inl (ValidationError ''FSM Location must be set''), sample_env [])"
proof -
  have lines: "list_ex (\<lambda>sol. tracking sol \<noteq> Some ''no'') (order_line order_per_line)"
    by (simp add: order_per_line_def sample_order_def tracking_samples)
  have loc: "fsm_location_id order_per_line = None"
    by (simp add: order_per_line_def sample_order_def)
  show ?thesis
    using confirm_without_location
      [OF lines loc, of sample_super sample_generation "sample_env []"]
    by (auto simp: sample_super_def prod_eq_iff)
qed

text \<open>
  A line without product (a section or a note) reads an empty tracking, and the test
  \<^verbatim>\<open>!= "no"\<close> holds of the empty value: such a line alone makes the confirmation demand
  a service location, whatever the other lines are.
\<close>

lemma confirm_line_without_product:
  assumes "sol \<in> set (order_line so)" and "product_id sol = None"
    and "fsm_location_id so = None" and "super e [so] = (Inr r, e1)"
  shows "action_confirm super field_service_generation e [so] =
           (Inl (ValidationError ''FSM Location must be set''), e1)"
proof -
  from assms(2) have "tracking sol \<noteq> Some ''no''"
    by (simp add: tracking_def)
  with assms(1) have "list_ex (\<lambda>sol. tracking sol \<noteq> Some ''no'') (order_line so)"
    unfolding list_ex_iff by blast
  with assms(3,4) show ?thesis
    by (simp add: action_confirm_def rs_order_line_single rs_fsm_location_id_single
        recordset_of_def)
qed

text \<open>
  C3. An order with no service-related line is to be confirmed as the inherited
  confirmation confirms it, with no validation error. The method departs from this on an
  order that holds, beside lines whose product has tracking \<^verbatim>\<open>"no"\<close>, a line without
  product (a section or a note): the tracking such a line reads is the empty value, of
  which \<^verbatim>\<open>!= "no"\<close> holds. On the order below every product has tracking \<^verbatim>\<open>"no"\<close>;
  without a service location the confirmation raises the validation error, and with one
  it calls the generation of the lines (which, in this sample, raises).
\<close>

theorem confirm_note_line_demands_location:
  "list_all (\<lambda>sol. case product_id sol of
                      None \<Rightarrow> True
                    | Some p \<Rightarrow> field_service_tracking p = Some ''no'')
     (order_line order_with_note) \<and>
   action_confirm sample_super sample_generation (sample_env []) [order_with_note] =
     (Inl (ValidationError ''FSM Location must be set''), sample_env []) \<and>
   action_confirm sample_super sample_generation (sample_env [])
     [order_with_note\<lparr>fsm_location_id := Some head_office\<rparr>] =
     (Inl (Propagated ()), sample_env [])"
  by (simp add: action_confirm_def rs_order_line_single rs_fsm_location_id_single
      recordset_of_def order_with_note_def sample_order_def sample_super_def
      sample_generation_def tracking_def product_plain_def)

subsection \<open>Claims on the change of customer\<close>

lemma first_of_filter:
  "(case filter P xs of [] \<Rightarrow> None | x # _ \<Rightarrow> Some x) = List.find P xs"
  by (induction xs) simp_all

lemma find_None_iff_all: "(List.find P xs = None) = (\<forall>x\<in>set xs. \<not> P x)"
  by (induction xs) simp_all

text \<open>
  C6. When the customer of the order is flagged as a service location, the service
  location becomes the first location owned by that very customer, the shipping address
  and the commercial partner playing no part; when no location is owned by the customer,
  whatever the commercial partner owns, the service location is cleared. No other field
  of the record that the inherited method left is changed.
\<close>

theorem onchange_customer_is_location:
  assumes "customer_is_location (super so)"
  shows "onchange_partner_id super e so =
           (super so)\<lparr>fsm_location_id :=
              List.find (owned_by_customer (super so)) (fsm_location_table e)\<rparr> \<and>
         ((\<forall>l \<in> set (fsm_location_table e). \<not> owned_by_customer (super so) l) \<longrightarrow>
            fsm_location_id (onchange_partner_id super e so) = None)"
proof -
  have eq: "onchange_partner_id super e so =
           (super so)\<lparr>fsm_location_id :=
              List.find (owned_by_customer (super so)) (fsm_location_table e)\<rparr>"
    using assms
    by (simp add: onchange_partner_id_def customer_is_location_def search_fsm_location_def
        fsm_location_field_def first_of_filter owned_by_customer_def Let_def eq_commute)
  then show ?thesis
    by (simp add: find_None_iff_all)
qed

theorem onchange_customer_is_location_witness:
  "fsm_location_id
     (onchange_partner_id (\<lambda>so. so) (sample_env [])
        ((sample_order 9 [] None)\<lparr>partner_id := Some site_partner\<rparr>)) = Some warehouse \<and>
   fsm_location_id
     (onchange_partner_id (\<lambda>so. so) (sample_env [])
        ((sample_order 9 [] None)\<lparr>partner_id := Some site_without_location\<rparr>)) = None"
proof -
  let ?with = "\<lambda>p. (sample_order 9 [] None)\<lparr>partner_id := Some p\<rparr>"
  have flagged: "customer_is_location (?with site_partner)"
    "customer_is_location (?with site_without_location)"
    by (simp_all add: customer_is_location_def site_partner_def site_without_location_def)
  have tbl: "fsm_location_table (sample_env []) = [head_office, warehouse]"
    by (simp add: sample_env_def)
  have own: "\<not> owned_by_customer (?with site_partner) head_office"
    "owned_by_customer (?with site_partner) warehouse"
    "\<not> owned_by_customer (?with site_without_location) head_office"
    "\<not> owned_by_customer (?with site_without_location) warehouse"
    by (simp_all add: owned_by_customer_def site_partner_def site_without_location_def
        head_office_def warehouse_def)
  show ?thesis
    using onchange_customer_is_location [of "\<lambda>so. so" "?with site_partner" "sample_env []"]
      onchange_customer_is_location
        [of "\<lambda>so. so" "?with site_without_location" "sample_env []"]
      flagged
    by (simp add: tbl own)
qed

text \<open>
  C7. When the customer of the order is not flagged as a service location, the locations
  searched are those owned by the customer, by the shipping address or by the customer's
  commercial partner. If there is one, the service location becomes the first of them in
  the order of the search: it is such a location and no earlier row of the table is. If
  there is none, the service location is cleared.
\<close>

theorem onchange_customer_not_location:
  assumes "\<not> customer_is_location (super so)"
  shows "onchange_partner_id super e so =
           (super so)\<lparr>fsm_location_id :=
              List.find (owned_by_candidate (super so)) (fsm_location_table e)\<rparr> \<and>
         ((\<exists>l \<in> set (fsm_location_table e). owned_by_candidate (super so) l) \<longrightarrow>
            (\<exists>k < length (fsm_location_table e).
               fsm_location_id (onchange_partner_id super e so) =
                 Some (fsm_location_table e ! k) \<and>
               owned_by_candidate (super so) (fsm_location_table e ! k) \<and>
               (\<forall>j < k. \<not> owned_by_candidate (super so) (fsm_location_table e ! j)))) \<and>
         ((\<forall>l \<in> set (fsm_location_table e). \<not> owned_by_candidate (super so) l) \<longrightarrow>
            fsm_location_id (onchange_partner_id super e so) = None)"
proof -
  let ?P = "owned_by_candidate (super so)"
  let ?tbl = "fsm_location_table e"
  have eq: "onchange_partner_id super e so =
           (super so)\<lparr>fsm_location_id := List.find ?P ?tbl\<rparr>"
    using assms
    by (simp add: onchange_partner_id_def customer_is_location_def search_fsm_location_def
        fsm_location_field_def first_of_filter owned_by_candidate_def Let_def eq_commute)
  have some: "\<exists>k < length ?tbl. List.find ?P ?tbl = Some (?tbl ! k) \<and> ?P (?tbl ! k) \<and>
      (\<forall>j < k. \<not> ?P (?tbl ! j))" if "\<exists>l \<in> set ?tbl. ?P l"
  proof -
    from that have "List.find ?P ?tbl \<noteq> None"
      by (simp add: find_None_iff_all)
    then obtain l where "List.find ?P ?tbl = Some l" by blast
    then show ?thesis
      unfolding find_Some_iff by blast
  qed
  have none: "List.find ?P ?tbl = None" if "\<forall>l \<in> set ?tbl. \<not> ?P l"
    using that by (simp add: find_None_iff_all)
  from eq some none show ?thesis
    by simp
qed

theorem onchange_customer_not_location_witness:
  "fsm_location_id
     (onchange_partner_id (\<lambda>so. so) (sample_env []) (sample_order 9 [] None)) =
     Some head_office"
proof -
  let ?so = "sample_order 9 [] None"
  have not_flagged: "\<not> customer_is_location ?so"
    by (simp add: customer_is_location_def sample_order_def contact_def)
  have tbl: "fsm_location_table (sample_env []) = [head_office, warehouse]"
    by (simp add: sample_env_def)
  have own: "owned_by_candidate ?so head_office"
    by (simp add: owned_by_candidate_def sample_order_def contact_def head_office_def)
  show ?thesis
    using onchange_customer_not_location [of "\<lambda>so. so" ?so "sample_env []"] not_flagged
    by (simp add: tbl own)
qed

subsection \<open>Claims on the linked field service orders\<close>

lemma set_map_rs_union:
  "set (map key (rs_union key a b)) = set (map key a) \<union> set (map key b)"
  using set_union_acc [of key "[]" "a @ b"] by (simp add: rs_union_def union_records_def)

lemma image_rs_union: "key ` set (rs_union key a b) = key ` set a \<union> key ` set b"
  using set_map_rs_union [of key a b] by simp

lemma distinct_map_rs_union: "distinct (map key (rs_union key a b))"
  using distinct_union_acc [of key "[]" "a @ b"] by (simp add: rs_union_def union_records_def)

lemma compute_fsm_order_ids_map:
  "compute_fsm_order_ids e self = map (linked_orders e) self"
  by (simp add: compute_fsm_order_ids_def linked_orders_def Let_def)

lemma search_by_line:
  "set (search_fsm_order e (Leaf_in ''sale_line_id'' (map sol_id (order_line order)))) =
     {fo \<in> set (fsm_order_table e).
        \<exists>i \<in> set (map sol_id (order_line order)). sale_line_id fo = Some i}"
  by (auto simp: search_fsm_order_def fsm_order_field_def split: option.splits)

lemma search_by_order:
  "set (search_fsm_order e (Leaf_eq ''sale_id'' (Some (so_id order)))) =
     {fo \<in> set (fsm_order_table e). sale_id fo = Some (so_id order)}"
  by (auto simp: search_fsm_order_def fsm_order_field_def)

lemma linked_orders_ids:
  "set (fsm_order_ids (linked_orders e order)) =
     linked_by_line e order \<union> linked_by_order e order"
proof -
  have "set (fsm_order_ids (linked_orders e order)) =
      fo_id ` set (search_fsm_order e
                     (Leaf_in ''sale_line_id'' (map sol_id (order_line order)))) \<union>
      fo_id ` set (search_fsm_order e (Leaf_eq ''sale_id'' (Some (so_id order))))"
    by (simp add: linked_orders_def Let_def image_rs_union)
  then show ?thesis
    unfolding search_by_line search_by_order linked_by_line_def linked_by_order_def .
qed

lemma linked_orders_count:
  "fsm_order_count (linked_orders e order) =
     card (linked_by_line e order \<union> linked_by_order e order)"
proof -
  have "distinct (fsm_order_ids (linked_orders e order))"
    by (simp add: linked_orders_def Let_def distinct_map_rs_union)
  then have "card (set (fsm_order_ids (linked_orders e order))) =
      length (fsm_order_ids (linked_orders e order))"
    by (rule distinct_card)
  then show ?thesis
    unfolding linked_orders_ids by (simp add: linked_orders_def Let_def)
qed

lemma linked_orders_idem: "linked_orders e (linked_orders e order) = linked_orders e order"
  by (simp add: linked_orders_def Let_def)

text \<open>
  C8. \<^verbatim>\<open>_compute_fsm_order_ids\<close> gives each order of the recordset, as its field service
  orders, the union of those whose line reference is one of the order's lines and those
  whose sale order reference is the order, and as their count the number of elements of
  that union; it changes no other field. So every field service order that refers to the
  sale order, with or without a line reference, is among them. The method only reads the
  environment, and computing again on its result changes nothing.
\<close>

theorem compute_linked_service_orders:
  "length (compute_fsm_order_ids e self) = length self \<and>
   (\<forall>k < length self.
      set (fsm_order_ids (compute_fsm_order_ids e self ! k)) =
        linked_by_line e (self ! k) \<union> linked_by_order e (self ! k) \<and>
      fsm_order_count (compute_fsm_order_ids e self ! k) =
        card (linked_by_line e (self ! k) \<union> linked_by_order e (self ! k)) \<and>
      compute_fsm_order_ids e self ! k =
        (self ! k)\<lparr>fsm_order_ids := fsm_order_ids (compute_fsm_order_ids e self ! k),
                    fsm_order_count := fsm_order_count (compute_fsm_order_ids e self ! k)\<rparr> \<and>
      (\<forall>fo \<in> set (fsm_order_table e). sale_id fo = Some (so_id (self ! k)) \<longrightarrow>
         fo_id fo \<in> set (fsm_order_ids (compute_fsm_order_ids e self ! k)))) \<and>
   compute_fsm_order_ids e (compute_fsm_order_ids e self) = compute_fsm_order_ids e self"
proof -
  have "linked_orders e order =
      order\<lparr>fsm_order_ids := fsm_order_ids (linked_orders e order),
             fsm_order_count := fsm_order_count (linked_orders e order)\<rparr>" for order
    by (simp add: linked_orders_def Let_def)
  moreover have "fo \<in> set (fsm_order_table e) \<Longrightarrow> sale_id fo = Some (so_id order) \<Longrightarrow>
      fo_id fo \<in> set (fsm_order_ids (linked_orders e order))" for fo order
    unfolding linked_orders_ids by (auto simp: linked_by_order_def)
  ultimately show ?thesis
    by (simp add: compute_fsm_order_ids_map linked_orders_ids linked_orders_count
        linked_orders_idem)
qed

theorem compute_linked_service_orders_witness:
  "set (fsm_order_ids
          (compute_fsm_order_ids
             (sample_env [sample_fsm_order 1 (Some 7) (Some 1), sample_fsm_order 2 (Some 7) None,
                          sample_fsm_order 3 (Some 8) None])
             [order_AB] ! 0)) = {1, 2} \<and>
   fsm_order_count
     (compute_fsm_order_ids
        (sample_env [sample_fsm_order 1 (Some 7) (Some 1), sample_fsm_order 2 (Some 7) None,
                     sample_fsm_order 3 (Some 8) None])
        [order_AB] ! 0) = 2"
proof -
  let ?e = "sample_env [sample_fsm_order 1 (Some 7) (Some 1), sample_fsm_order 2 (Some 7) None,
                        sample_fsm_order 3 (Some 8) None]"
  have "linked_by_line ?e order_AB =
      fo_id ` set (search_fsm_order ?e
                     (Leaf_in ''sale_line_id'' (map sol_id (order_line order_AB))))"
    unfolding search_by_line linked_by_line_def ..
  then have by_line: "linked_by_line ?e order_AB = {1}"
    by (simp add: search_fsm_order_def fsm_order_field_def sample_env_def
        sample_fsm_order_def order_AB_def sample_order_def line_A_def line_B_def)
  have "linked_by_order ?e order_AB =
      fo_id ` set (search_fsm_order ?e (Leaf_eq ''sale_id'' (Some (so_id order_AB))))"
    unfolding search_by_order linked_by_order_def ..
  then have by_order: "linked_by_order ?e order_AB = {1, 2}"
    by (simp add: search_fsm_order_def fsm_order_field_def sample_env_def
        sample_fsm_order_def order_AB_def sample_order_def)
  have union: "linked_by_line ?e order_AB \<union> linked_by_order ?e order_AB = {1, 2}"
    unfolding by_line by_order by auto
  have k: "(0::nat) < length [order_AB]" by simp
  note step = compute_linked_service_orders
    [of ?e "[order_AB]", THEN conjunct2, THEN conjunct1, rule_format, OF k,
     unfolded nth_Cons_0]
  from step have ids: "set (fsm_order_ids (compute_fsm_order_ids ?e [order_AB] ! 0)) =
      linked_by_line ?e order_AB \<union> linked_by_order ?e order_AB"
    by (rule conjunct1)
  from step have cnt: "fsm_order_count (compute_fsm_order_ids ?e [order_AB] ! 0) =
      card (linked_by_line ?e order_AB \<union> linked_by_order ?e order_AB)"
    by (rule conjunct2 [THEN conjunct1])
  show ?thesis
    unfolding ids cnt union by simp
qed

subsection \<open>Claims on finding or creating the field service order\<close>

lemma foldl_mapping:
  "foldl (\<lambda>m fo. m(sale_id fo \<mapsto> fo_id fo)) m0 rows k =
     (if filter (\<lambda>fo. sale_id fo = k) rows = [] then m0 k
      else Some (fo_id (last (filter (\<lambda>fo. sale_id fo = k) rows))))"
proof (induction rows arbitrary: m0)
  case Nil
  then show ?case by simp
next
  case (Cons r rows)
  let ?f = "\<lambda>m fo. m(sale_id fo \<mapsto> fo_id fo)"
  have "foldl ?f m0 (r # rows) k = foldl ?f (m0(sale_id r \<mapsto> fo_id r)) rows k"
    by (simp only: foldl_Cons)
  also have "\<dots> =
      (if filter (\<lambda>fo. sale_id fo = k) rows = [] then (m0(sale_id r \<mapsto> fo_id r)) k
       else Some (fo_id (last (filter (\<lambda>fo. sale_id fo = k) rows))))"
    by (rule Cons.IH)
  also have "\<dots> =
      (if filter (\<lambda>fo. sale_id fo = k) (r # rows) = [] then m0 k
       else Some (fo_id (last (filter (\<lambda>fo. sale_id fo = k) (r # rows)))))"
    by simp
  finally show ?case .
qed

lemma mapping_found:
  assumes "i \<in> set ids"
  shows "foldl (\<lambda>m fo. m(sale_id fo \<mapsto> fo_id fo)) Map.empty
           (search_fsm_order e (AND (Leaf_in ''sale_id'' ids) (Leaf_eq ''sale_line_id'' None)))
           (Some i) = found e i"
proof -
  have "filter (\<lambda>fo. sale_id fo = Some i)
          (search_fsm_order e (AND (Leaf_in ''sale_id'' ids) (Leaf_eq ''sale_line_id'' None)))
        = order_level e i"
    using assms
    by (auto simp: search_fsm_order_def order_level_def fsm_order_field_def
        intro!: filter_cong)
  then show ?thesis
    unfolding foldl_mapping found_def by simp
qed


lemma field_create_single:
  "field_create_fsm_order e [so] =
     (Inr [so_id so \<mapsto> new_id (fsm_order_table e)], created e so)"
  by (simp add: field_create_fsm_order_def created_def prepare_values_singleton create_def
      Let_def)

lemma order_level_created:
  "order_level (created e so) i =
     order_level e i @
       (if i = so_id so then [last (fsm_order_table (created e so))] else [])"
  "fo_id (last (fsm_order_table (created e so))) = new_id (fsm_order_table e)"
  by (simp_all add: created_def field_create_fsm_order_def prepare_values_singleton
      create_def Let_def message_post_def order_level_def)

lemma found_cong: "order_level e' i = order_level e i \<Longrightarrow> found e' i = found e i"
  by (simp add: found_def)

lemma find_loop_inv:
  assumes "distinct (map so_id rest)"
    and "\<forall>so\<in>set rest. M (Some (so_id so)) = found e (so_id so)"
  shows "\<exists>m' e'.
     field_find_fsm_order_loop M e rest m =
       ((Inr m', e') :: ('e error + (nat \<rightharpoonup> nat)) \<times> env) \<and>
     (\<forall>so\<in>set rest.
        m' (so_id so) = found e' (so_id so) \<and> order_level e' (so_id so) \<noteq> [] \<and>
        length (order_level e' (so_id so)) = max 1 (length (order_level e (so_id so)))) \<and>
     (\<forall>i. i \<notin> so_id ` set rest \<longrightarrow> m' i = m i \<and> order_level e' i = order_level e i)"
  using assms
proof (induction rest arbitrary: e m)
  case Nil
  then show ?case by simp
next
  case (Cons so rest)
  let ?sid = "so_id so"
  let ?loop = "field_find_fsm_order_loop ::
    _ \<Rightarrow> _ \<Rightarrow> _ \<Rightarrow> _ \<Rightarrow> ('e error + (nat \<rightharpoonup> nat)) \<times> env"
  from Cons.prems have fresh: "?sid \<notin> so_id ` set rest" and dist: "distinct (map so_id rest)"
    by auto
  from Cons.prems have M_so: "M (Some ?sid) = found e ?sid" by simp
  show ?case
  proof (cases "M (Some ?sid)")
    case (Some v)
    from Cons.prems have "\<forall>s\<in>set rest. M (Some (so_id s)) = found e (so_id s)" by simp
    from Cons.IH [OF dist this, of "m(?sid \<mapsto> v)"]
    obtain m' e' where
      run: "?loop M e rest (m(?sid \<mapsto> v)) = (Inr m', e')" and
      inside: "\<forall>s\<in>set rest.
        m' (so_id s) = found e' (so_id s) \<and> order_level e' (so_id s) \<noteq> [] \<and>
        length (order_level e' (so_id s)) = max 1 (length (order_level e (so_id s)))" and
      outside: "\<forall>i. i \<notin> so_id ` set rest \<longrightarrow>
        m' i = (m(?sid \<mapsto> v)) i \<and> order_level e' i = order_level e i"
      by blast
    from outside fresh have here: "m' ?sid = Some v" "order_level e' ?sid = order_level e ?sid"
      by simp_all
    from M_so Some have nonempty: "order_level e ?sid \<noteq> []"
      by (auto simp: found_def split: if_splits)
    have "?loop M e (so # rest) m = (Inr m', e')"
      using Some run by simp
    moreover have "m' ?sid = found e' ?sid"
      using here M_so Some found_cong [of e' ?sid e] by simp
    moreover have "order_level e' ?sid \<noteq> []"
      using here nonempty by simp
    moreover have "length (order_level e' ?sid) = max 1 (length (order_level e ?sid))"
      using here nonempty by (cases "order_level e ?sid") simp_all
    moreover have "\<forall>i. i \<notin> so_id ` set (so # rest) \<longrightarrow>
        m' i = m i \<and> order_level e' i = order_level e i"
      using outside by simp
    ultimately show ?thesis
      using inside by (intro exI [of _ m'] exI [of _ e']) simp
  next
    case None
    let ?e1 = "created e so"
    let ?nid = "new_id (fsm_order_table e)"
    from M_so None have empty: "order_level e ?sid = []"
      by (auto simp: found_def split: if_splits)
    have other: "order_level ?e1 i = order_level e i" if "i \<noteq> ?sid" for i
      using that by (simp add: order_level_created)
    have "\<forall>s\<in>set rest. M (Some (so_id s)) = found ?e1 (so_id s)"
    proof
      fix s assume s: "s \<in> set rest"
      with fresh have "so_id s \<noteq> ?sid" by (metis imageI)
      then have "found ?e1 (so_id s) = found e (so_id s)"
        by (intro found_cong other)
      with Cons.prems s show "M (Some (so_id s)) = found ?e1 (so_id s)" by simp
    qed
    from Cons.IH [OF dist this, of "m(?sid \<mapsto> ?nid)"]
    obtain m' e' where
      run: "?loop M ?e1 rest (m(?sid \<mapsto> ?nid)) = (Inr m', e')" and
      inside: "\<forall>s\<in>set rest.
        m' (so_id s) = found e' (so_id s) \<and> order_level e' (so_id s) \<noteq> [] \<and>
        length (order_level e' (so_id s)) = max 1 (length (order_level ?e1 (so_id s)))" and
      outside: "\<forall>i. i \<notin> so_id ` set rest \<longrightarrow>
        m' i = (m(?sid \<mapsto> ?nid)) i \<and> order_level e' i = order_level ?e1 i"
      by blast
    from outside fresh have here: "m' ?sid = Some ?nid" "order_level e' ?sid = order_level ?e1 ?sid"
      by simp_all
    have lvl: "order_level ?e1 ?sid = [last (fsm_order_table ?e1)]"
      using empty by (simp add: order_level_created)
    have "?loop M e (so # rest) m = (Inr m', e')"
      using None run by (simp add: field_create_single)
    moreover have "m' ?sid = found e' ?sid"
      using here lvl by (simp add: found_def order_level_created(2))
    moreover have "order_level e' ?sid \<noteq> []"
      using here lvl by simp
    moreover have "length (order_level e' ?sid) = max 1 (length (order_level e ?sid))"
      using here lvl empty by simp
    moreover have "\<forall>s\<in>set rest.
        m' (so_id s) = found e' (so_id s) \<and> order_level e' (so_id s) \<noteq> [] \<and>
        length (order_level e' (so_id s)) = max 1 (length (order_level e (so_id s)))"
    proof
      fix s assume s: "s \<in> set rest"
      with fresh have "so_id s \<noteq> ?sid" by (metis imageI)
      then have "order_level ?e1 (so_id s) = order_level e (so_id s)" by (rule other)
      with inside s show "m' (so_id s) = found e' (so_id s) \<and> order_level e' (so_id s) \<noteq> [] \<and>
        length (order_level e' (so_id s)) = max 1 (length (order_level e (so_id s)))"
        by simp
    qed
    moreover have "\<forall>i. i \<notin> so_id ` set (so # rest) \<longrightarrow>
        m' i = m i \<and> order_level e' i = order_level e i"
      using outside other by simp
    ultimately show ?thesis
      by (intro exI [of _ m'] exI [of _ e']) simp
  qed
qed

lemma find_loop_all_found:
  assumes "\<forall>so\<in>set rest. M (Some (so_id so)) \<noteq> None"
  shows "field_find_fsm_order_loop M e rest m =
     ((Inr (\<lambda>i. if i \<in> so_id ` set rest then M (Some i) else m i), e)
        :: ('e error + (nat \<rightharpoonup> nat)) \<times> env)"
  using assms
proof (induction rest arbitrary: m)
  case Nil
  then show ?case by simp
next
  case (Cons so rest)
  then obtain v where v: "M (Some (so_id so)) = Some v" by auto
  from Cons.prems have "\<forall>s\<in>set rest. M (Some (so_id s)) \<noteq> None" by simp
  note IH = Cons.IH [OF this, of "m(so_id so \<mapsto> v)"]
  have "(\<lambda>i. if i \<in> so_id ` set rest then M (Some i) else (m(so_id so \<mapsto> v)) i) =
      (\<lambda>i. if i \<in> so_id ` set (so # rest) then M (Some i) else m i)"
    using v by auto
  with IH v show ?case
    by (simp del: fun_upd_apply)
qed


text \<open>
  C1. \<^verbatim>\<open>_field_find_fsm_order\<close>, called on a recordset of sale orders (each identifier
  once) and called again on the environment it leaves, returns the same field service
  order for each sale order both times; the second call leaves the environment as it is.
  For each sale order, the order found is one of its order-level field service orders,
  and their number afterwards is the number before, or one if there was none: at most
  one is created, and none when one exists. So where at most one existed before, exactly
  one exists afterwards.
\<close>

theorem find_or_create_once:
  assumes "distinct (map so_id self)"
  shows "\<exists>m e1.
     field_find_fsm_order e self = ((Inr m, e1) :: ('e error + (nat \<rightharpoonup> nat)) \<times> env) \<and>
     field_find_fsm_order e1 self = ((Inr m, e1) :: ('e error + (nat \<rightharpoonup> nat)) \<times> env) \<and>
     (\<forall>so\<in>set self.
        (\<exists>fo\<in>set (order_level e1 (so_id so)). m (so_id so) = Some (fo_id fo)) \<and>
        length (order_level e1 (so_id so)) = max 1 (length (order_level e (so_id so))) \<and>
        (length (order_level e (so_id so)) \<le> 1 \<longrightarrow>
           length (order_level e1 (so_id so)) = 1))"
proof -
  let ?find = "field_find_fsm_order :: _ \<Rightarrow> _ \<Rightarrow> ('e error + (nat \<rightharpoonup> nat)) \<times> env"
  let ?loop = "field_find_fsm_order_loop ::
    _ \<Rightarrow> _ \<Rightarrow> _ \<Rightarrow> _ \<Rightarrow> ('e error + (nat \<rightharpoonup> nat)) \<times> env"
  let ?M = "\<lambda>e. foldl (\<lambda>m fo. m(sale_id fo \<mapsto> fo_id fo)) Map.empty
     (search_fsm_order e
        (AND (Leaf_in ''sale_id'' (map so_id self)) (Leaf_eq ''sale_line_id'' None)))"
  have unfold: "?find e' self = ?loop (?M e') e' self Map.empty" for e'
    by (simp add: field_find_fsm_order_def Let_def)
  have M_found: "?M e' (Some (so_id so)) = found e' (so_id so)" if "so \<in> set self" for e' so
    using that by (intro mapping_found) simp
  then have "\<forall>so\<in>set self. ?M e (Some (so_id so)) = found e (so_id so)" by blast
  from find_loop_inv [OF assms this, of Map.empty, where ?'e = 'e]
  obtain m e1 where
    run: "?loop (?M e) e self Map.empty = (Inr m, e1)" and
    inside: "\<forall>so\<in>set self.
        m (so_id so) = found e1 (so_id so) \<and> order_level e1 (so_id so) \<noteq> [] \<and>
        length (order_level e1 (so_id so)) = max 1 (length (order_level e (so_id so)))" and
    outside: "\<forall>i. i \<notin> so_id ` set self \<longrightarrow> m i = None"
    by blast
  have first: "?find e self = (Inr m, e1)"
    using run by (simp only: unfold)
  have all_found: "\<forall>so\<in>set self. ?M e1 (Some (so_id so)) \<noteq> None"
    using inside by (simp add: M_found found_def)
  have "(\<lambda>i. if i \<in> so_id ` set self then ?M e1 (Some i) else Map.empty i) = m"
  proof
    fix i
    show "(if i \<in> so_id ` set self then ?M e1 (Some i) else Map.empty i) = m i"
    proof (cases "i \<in> so_id ` set self")
      case True
      then obtain so where "so \<in> set self" "i = so_id so" by auto
      with inside show ?thesis by (simp add: M_found)
    next
      case False
      with outside show ?thesis by simp
    qed
  qed
  with find_loop_all_found [OF all_found, of e1 Map.empty, where ?'e = 'e]
  have second: "?find e1 self = (Inr m, e1)"
    by (simp only: unfold)
  have "\<forall>so\<in>set self.
        (\<exists>fo\<in>set (order_level e1 (so_id so)). m (so_id so) = Some (fo_id fo)) \<and>
        length (order_level e1 (so_id so)) = max 1 (length (order_level e (so_id so))) \<and>
        (length (order_level e (so_id so)) \<le> 1 \<longrightarrow>
           length (order_level e1 (so_id so)) = 1)"
  proof
    fix so assume "so \<in> set self"
    with inside have m: "m (so_id so) = found e1 (so_id so)"
      and ne: "order_level e1 (so_id so) \<noteq> []"
      and len: "length (order_level e1 (so_id so)) = max 1 (length (order_level e (so_id so)))"
      by simp_all
    from m ne have "m (so_id so) = Some (fo_id (last (order_level e1 (so_id so))))"
      by (simp add: found_def)
    moreover from ne have "last (order_level e1 (so_id so)) \<in> set (order_level e1 (so_id so))"
      by simp
    ultimately have "\<exists>fo\<in>set (order_level e1 (so_id so)). m (so_id so) = Some (fo_id fo)"
      by blast
    with len show "(\<exists>fo\<in>set (order_level e1 (so_id so)). m (so_id so) = Some (fo_id fo)) \<and>
        length (order_level e1 (so_id so)) = max 1 (length (order_level e (so_id so))) \<and>
        (length (order_level e (so_id so)) \<le> 1 \<longrightarrow>
           length (order_level e1 (so_id so)) = 1)"
      by auto
  qed
  with first second show ?thesis by blast
qed

theorem find_or_create_once_witness:
  "\<exists>m e1.
     field_find_fsm_order (sample_env []) [order_AB] =
       ((Inr m, e1) :: (unit error + (nat \<rightharpoonup> nat)) \<times> env) \<and>
     field_find_fsm_order e1 [order_AB] =
       ((Inr m, e1) :: (unit error + (nat \<rightharpoonup> nat)) \<times> env) \<and>
     (\<exists>fo\<in>set (order_level e1 7). m 7 = Some (fo_id fo)) \<and>
     length (order_level (sample_env []) 7) = 0 \<and>
     length (order_level e1 7) = 1"
proof -
  have ids: "so_id order_AB = 7"
    by (simp add: order_AB_def sample_order_def)
  have before: "order_level (sample_env []) 7 = []"
    by (simp add: order_level_def sample_env_def)
  have "distinct (map so_id [order_AB])" by simp
  from find_or_create_once [OF this, of "sample_env []", where ?'e = unit]
  show ?thesis
    by (simp add: ids before)
qed

end
